theory Spec2Isabelle
  imports Complex_Main "HOL-Library.Sublist"
begin

section \<open>Text primitives\<close>

text \<open>
  Request and constraint texts are Python \<open>str\<close> values. They are modelled as
  \<open>string\<close> (a list of 8-bit characters) and read as ASCII text: a character with
  code 128 or above is kept as it is, and is neither whitespace, a digit, a letter nor a
  word character. On ASCII text the classes below are the ones Python's \<open>str.strip\<close>,
  \<open>str.lower\<close> and the \<open>re\<close> module (\<open>\s\<close>, \<open>\d\<close>, \<open>\w\<close>, \<open>\b\<close>) use.
\<close>

definition code :: "char \<Rightarrow> nat" where
  "code c = of_char c"

text \<open>Whitespace of \<open>str.strip()\<close> and \<open>\s\<close>: TAB, LF, VT, FF, CR, the four
  separators FS, GS, RS, US, and the space.\<close>

definition is_space :: "char \<Rightarrow> bool" where
  "is_space c = ((9 \<le> code c \<and> code c \<le> 13) \<or> (28 \<le> code c \<and> code c \<le> 32))"

definition is_digit :: "char \<Rightarrow> bool" where
  "is_digit c = (48 \<le> code c \<and> code c \<le> 57)"

definition is_upper :: "char \<Rightarrow> bool" where
  "is_upper c = (65 \<le> code c \<and> code c \<le> 90)"

definition is_lower :: "char \<Rightarrow> bool" where
  "is_lower c = (97 \<le> code c \<and> code c \<le> 122)"

text \<open>\<open>\w\<close>: letters, digits and the underscore.\<close>

definition is_word :: "char \<Rightarrow> bool" where
  "is_word c = (is_digit c \<or> is_upper c \<or> is_lower c \<or> code c = 95)"

definition lower_char :: "char \<Rightarrow> char" where
  "lower_char c = (if is_upper c then char_of (code c + 32) else c)"

text \<open>\<open>s.lower()\<close>\<close>

definition lower :: "string \<Rightarrow> string" where
  "lower s = map lower_char s"

text \<open>\<open>s.strip()\<close>\<close>

definition strip :: "string \<Rightarrow> string" where
  "strip s = rev (dropWhile is_space (rev (dropWhile is_space s)))"

text \<open>
  \<open>re.sub(r"\s+", " ", s)\<close>: every maximal run of whitespace becomes one space. The
  flag says that the character before the current one was whitespace, so that the run
  it belongs to has been replaced already.
\<close>

fun sub_ws :: "bool \<Rightarrow> string \<Rightarrow> string" where
  "sub_ws inrun [] = []"
| "sub_ws inrun (c # cs) =
     (if is_space c then (if inrun then sub_ws True cs else CHR '' '' # sub_ws True cs)
      else c # sub_ws False cs)"

text \<open>
  \<open>_norm\<close> of \<open>agent/orchestrator.py\<close> and \<open>_normalize\<close> of \<open>agent/policy.py\<close>
  have the same body: \<open>re.sub(r"\s+", " ", (s or "").strip().lower())\<close>. On a
  \<open>str\<close> argument \<open>s or ""\<close> is \<open>s\<close>.
\<close>

definition norm_str :: "string \<Rightarrow> string" where
  "norm_str s = sub_ws False (lower (strip s))"

text \<open>\<open>w in t\<close> on strings: \<open>w\<close> occurs in \<open>t\<close> as a contiguous substring.\<close>

fun starts_with :: "string \<Rightarrow> string \<Rightarrow> bool" where
  "starts_with t [] = True"
| "starts_with [] (w # ws) = False"
| "starts_with (c # cs) (w # ws) = (c = w \<and> starts_with cs ws)"

fun py_in :: "string \<Rightarrow> string \<Rightarrow> bool" where
  "py_in w [] = (w = [])"
| "py_in w (c # cs) = (starts_with (c # cs) w \<or> py_in w cs)"

text \<open>\<open>any(w in t for w in ws)\<close>\<close>

definition any_in :: "string list \<Rightarrow> string \<Rightarrow> bool" where
  "any_in ws t = list_ex (\<lambda>w. py_in w t) ws"

section \<open>Action classifier (agent/orchestrator.py)\<close>

datatype action_type = SCHEDULE_MEETING | SHARE_DATA | SPEND_MONEY | UNKNOWN

definition meeting_words :: "string list" where
  "meeting_words = [''meeting'', ''call'', ''schedule'', ''book'', ''invite'']"

definition share_words :: "string list" where
  "share_words = [''share'', ''send'', ''export'', ''forward'', ''upload'']"

definition data_words :: "string list" where
  "data_words = [''dataset'', ''data'', ''file'', ''files'', ''csv'']"

definition spend_words :: "string list" where
  "spend_words = [''buy'', ''purchase'', ''spend'', ''pay'', ''order'']"

definition classify_action :: "string \<Rightarrow> action_type" where
  "classify_action user_request =
     (let t = norm_str user_request in
      if any_in meeting_words t then SCHEDULE_MEETING
      else if any_in share_words t \<and> any_in data_words t then SHARE_DATA
      else if any_in spend_words t \<or> py_in ''$'' t then SPEND_MONEY
      else UNKNOWN)"

section \<open>A backtracking matcher for the patterns of the program\<close>

text \<open>
  The program calls \<open>re.search\<close> with seven patterns. They use character classes,
  greedy repetition of a character class, sequence, ordered alternative, the greedy
  option \<open>?\<close>, capturing groups and the word boundary \<open>\b\<close>. A pattern is a value of
  \<open>rx\<close>; \<open>rmatch r s\<close> lists the states in which a match of \<open>r\<close> started in state
  \<open>s\<close> can end, in the order in which Python's backtracking matcher tries them, so
  the match \<open>re\<close> reports is the first state of the list for the whole pattern.
\<close>

datatype citem = Ch char | Rng char char | Dg | Sp

fun item_matches :: "char \<Rightarrow> citem \<Rightarrow> bool" where
  "item_matches c (Ch d) = (c = d)"
| "item_matches c (Rng a b) = (code a \<le> code c \<and> code c \<le> code b)"
| "item_matches c Dg = is_digit c"
| "item_matches c Sp = is_space c"

definition in_class :: "citem list \<Rightarrow> char \<Rightarrow> bool" where
  "in_class cls c = list_ex (item_matches c) cls"

datatype rx =
    Eps
  | One "citem list"
  | Rep "citem list" nat "nat option"
  | Seq rx rx
  | Alt rx rx
  | Opt rx
  | Grp nat rx
  | WordB

text \<open>A matcher state: the character before the current position (if any), the text
  from the current position on, and the groups captured so far, newest first.\<close>

record mstate =
  prev :: "char option"
  rest :: string
  groups :: "(nat \<times> string) list"

definition consume :: "nat \<Rightarrow> mstate \<Rightarrow> mstate" where
  "consume k s =
     (if k = 0 then s else s\<lparr>prev := Some (rest s ! (k - 1)), rest := drop k (rest s)\<rparr>)"

text \<open>\<open>\b\<close>: exactly one of the two neighbouring positions holds a word character.\<close>

definition at_boundary :: "mstate \<Rightarrow> bool" where
  "at_boundary s =
     ((case prev s of None \<Rightarrow> False | Some c \<Rightarrow> is_word c)
        \<noteq> (case rest s of [] \<Rightarrow> False | c # _ \<Rightarrow> is_word c))"

text \<open>The counts a greedy repetition tries: the longest first, never fewer than \<open>lo\<close>.\<close>

definition rep_counts :: "citem list \<Rightarrow> nat \<Rightarrow> nat option \<Rightarrow> string \<Rightarrow> nat list" where
  "rep_counts cls lo hi cs =
     (let n = length (takeWhile (in_class cls) cs);
          m = (case hi of None \<Rightarrow> n | Some h \<Rightarrow> min n h)
      in filter (\<lambda>k. lo \<le> k) (rev [0..<Suc m]))"

fun rmatch :: "rx \<Rightarrow> mstate \<Rightarrow> mstate list" where
  "rmatch Eps s = [s]"
| "rmatch (One cls) s =
     (case rest s of
        [] \<Rightarrow> []
      | c # cs \<Rightarrow> if in_class cls c then [s\<lparr>prev := Some c, rest := cs\<rparr>] else [])"
| "rmatch (Rep cls lo hi) s = map (\<lambda>k. consume k s) (rep_counts cls lo hi (rest s))"
| "rmatch (Seq a b) s = concat (map (rmatch b) (rmatch a s))"
| "rmatch (Alt a b) s = rmatch a s @ rmatch b s"
| "rmatch (Opt a) s = rmatch a s @ [s]"
| "rmatch (Grp i a) s =
     map (\<lambda>s'. s'\<lparr>groups := (i, take (length (rest s) - length (rest s')) (rest s)) # groups s'\<rparr>)
       (rmatch a s)"
| "rmatch WordB s = (if at_boundary s then [s] else [])"

text \<open>\<open>re.search(r, t)\<close>: the first match at the leftmost position that has one.
  \<open>p\<close> is the character before \<open>cs\<close>.\<close>

fun rsearch_from :: "rx \<Rightarrow> char option \<Rightarrow> string \<Rightarrow> mstate option" where
  "rsearch_from r p [] =
     (case rmatch r \<lparr>prev = p, rest = [], groups = []\<rparr> of [] \<Rightarrow> None | m # _ \<Rightarrow> Some m)"
| "rsearch_from r p (c # cs) =
     (case rmatch r \<lparr>prev = p, rest = c # cs, groups = []\<rparr> of
        [] \<Rightarrow> rsearch_from r (Some c) cs
      | m # _ \<Rightarrow> Some m)"

definition rsearch :: "rx \<Rightarrow> string \<Rightarrow> mstate option" where
  "rsearch r t = rsearch_from r None t"

text \<open>\<open>m.group(i)\<close>, for a group that every match of the pattern binds (lemma
  \<open>rsearch_binds\<close> below); the empty string stands for an unbound group.\<close>

definition match_group :: "mstate \<Rightarrow> nat \<Rightarrow> string" where
  "match_group m i = (case map_of (groups m) i of None \<Rightarrow> [] | Some g \<Rightarrow> g)"

definition seq :: "rx list \<Rightarrow> rx" where
  "seq rs = foldr Seq rs Eps"

definition ch :: "char \<Rightarrow> rx" where
  "ch c = One [Ch c]"

definition lit :: "string \<Rightarrow> rx" where
  "lit w = seq (map ch w)"

text \<open>\<open>int(g)\<close> for a string of ASCII digits.\<close>

definition int_of_digits :: "string \<Rightarrow> int" where
  "int_of_digits g = foldl (\<lambda>a c. 10 * a + (int (code c) - 48)) 0 g"

section \<open>Hour extraction\<close>

text \<open>\<open>(a\.?m\.?|p\.?m\.?)\<close>\<close>

definition rx_ampm :: rx where
  "rx_ampm = Alt (seq [ch CHR ''a'', Opt (ch CHR ''.''), ch CHR ''m'', Opt (ch CHR ''.'')])
                 (seq [ch CHR ''p'', Opt (ch CHR ''.''), ch CHR ''m'', Opt (ch CHR ''.'')])"

text \<open>The conversion both extractors apply to a match with a meridiem marker:
  \<^verbatim>\<open>
    ampm = m.group(..).replace(".", "")
    if ampm == "pm" and h != 12: h += 12
    if ampm == "am" and h == 12: h = 0
    if 0 <= h <= 23: return h
  \<close>\<close>

definition to_24h :: "int \<Rightarrow> string \<Rightarrow> int" where
  "to_24h h marker =
     (let ampm = filter (\<lambda>c. c \<noteq> CHR ''.'') marker;
          h1 = (if ampm = ''pm'' \<and> h \<noteq> 12 then h + 12 else h);
          h2 = (if ampm = ''am'' \<and> h1 = 12 then 0 else h1)
      in h2)"

definition in_day :: "int \<Rightarrow> int option" where
  "in_day h = (if 0 \<le> h \<and> h \<le> 23 then Some h else None)"

subsection \<open>Action evaluation (agent/orchestrator.py)\<close>

text \<open>\<open>\b(\d{1,2})(?::(\d{2}))?\s*(a\.?m\.?|p\.?m\.?)\b\<close>\<close>

definition rx_orch_ampm :: rx where
  "rx_orch_ampm =
     seq [WordB, Grp 1 (Rep [Dg] 1 (Some 2)),
          Opt (Seq (ch CHR '':'') (Grp 2 (Rep [Dg] 2 (Some 2)))),
          Rep [Sp] 0 None, Grp 3 rx_ampm, WordB]"

text \<open>\<open>\b(\d{1,2})(?::\d{2})\b\<close>: the group of the minutes is not optional.\<close>

definition rx_orch_24 :: rx where
  "rx_orch_24 =
     seq [WordB, Grp 1 (Rep [Dg] 1 (Some 2)), Seq (ch CHR '':'') (Rep [Dg] 2 (Some 2)), WordB]"

definition orchestrator_parse_time_to_hour :: "string \<Rightarrow> int option" where
  "orchestrator_parse_time_to_hour text =
     (let t = norm_str text;
          first = (case rsearch rx_orch_ampm t of
                     None \<Rightarrow> None
                   | Some m \<Rightarrow> in_day (to_24h (int_of_digits (match_group m 1)) (match_group m 3)))
      in case first of
           Some h \<Rightarrow> Some h
         | None \<Rightarrow>
             (case rsearch rx_orch_24 t of
                None \<Rightarrow> None
              | Some m2 \<Rightarrow> in_day (int_of_digits (match_group m2 1))))"

subsection \<open>Constraint parsing (agent/policy.py)\<close>

text \<open>\<open>\bafter\s+(\d{1,2})\s*(a\.?m\.?|p\.?m\.?)\b\<close>\<close>

definition rx_policy_ampm :: rx where
  "rx_policy_ampm =
     seq [WordB, lit ''after'', Rep [Sp] 1 None, Grp 1 (Rep [Dg] 1 (Some 2)),
          Rep [Sp] 0 None, Grp 2 rx_ampm, WordB]"

text \<open>\<open>\bafter\s+(\d{1,2})(?::\d{2})?\b\<close>\<close>

definition rx_policy_24 :: rx where
  "rx_policy_24 =
     seq [WordB, lit ''after'', Rep [Sp] 1 None, Grp 1 (Rep [Dg] 1 (Some 2)),
          Opt (Seq (ch CHR '':'') (Rep [Dg] 2 (Some 2))), WordB]"

definition policy_parse_time_to_hour :: "string \<Rightarrow> int option" where
  "policy_parse_time_to_hour text =
     (let t = norm_str text;
          first = (case rsearch rx_policy_ampm t of
                     None \<Rightarrow> None
                   | Some m \<Rightarrow> in_day (to_24h (int_of_digits (match_group m 1)) (match_group m 2)))
      in case first of
           Some h \<Rightarrow> Some h
         | None \<Rightarrow>
             (case rsearch rx_policy_24 t of
                None \<Rightarrow> None
              | Some m2 \<Rightarrow> in_day (int_of_digits (match_group m2 1))))"

section \<open>Python values\<close>

text \<open>
  A \<open>float\<close> is an IEEE 754 double: a rational number that a double holds exactly,
  an infinity, or a NaN. The sign of a zero is not represented; the program never
  prints a zero and compares zeros only with \<open>>\<close>, for which both zeros agree.
\<close>

datatype pyfloat = Fin rat | PInf | NInf | NaN

text \<open>\<open>a > b\<close> on floats.\<close>

fun fgt :: "pyfloat \<Rightarrow> pyfloat \<Rightarrow> bool" where
  "fgt NaN b = False"
| "fgt a NaN = False"
| "fgt NInf b = False"
| "fgt a PInf = False"
| "fgt PInf b = True"
| "fgt a NInf = True"
| "fgt (Fin x) (Fin y) = (y < x)"

fun fneg :: "pyfloat \<Rightarrow> pyfloat" where
  "fneg (Fin x) = Fin (- x)"
| "fneg PInf = NInf"
| "fneg NInf = PInf"
| "fneg NaN = NaN"

text \<open>The number of binary digits of a natural number.\<close>

fun bitlen :: "nat \<Rightarrow> nat" where
  "bitlen n = (if n = 0 then 0 else Suc (bitlen (n div 2)))"

text \<open>\<open>ilog2 q\<close> is the integer \<open>e\<close> with \<open>2^e \<le> q < 2^(e+1)\<close>, for \<open>q > 0\<close>.\<close>

definition ilog2 :: "rat \<Rightarrow> int" where
  "ilog2 q =
     (if 1 \<le> q then int (bitlen (nat \<lfloor>q\<rfloor>)) - 1
      else - int (bitlen (nat \<lceil>1 / q\<rceil> - 1)))"

definition pow2 :: "int \<Rightarrow> rat" where
  "pow2 e = (if 0 \<le> e then 2 ^ nat e else 1 / 2 ^ nat (- e))"

text \<open>Rounding to the nearest integer, a tie to the even neighbour.\<close>

definition round_half_even :: "rat \<Rightarrow> int" where
  "round_half_even x =
     (let f = \<lfloor>x\<rfloor>; d = x - of_int f
      in if d < 1 / 2 then f else if 1 / 2 < d then f + 1 else if even f then f else f + 1)"

text \<open>
  The double nearest to a positive rational (round to nearest, ties to even): 53
  significant bits, the unit in the last place never below \<open>2^-1074\<close>, and an infinity
  from \<open>2^1024\<close> on.
\<close>

definition round_pos :: "rat \<Rightarrow> pyfloat" where
  "round_pos q =
     (let u = max (ilog2 q - 52) (- 1074);
          r = of_int (round_half_even (q / pow2 u)) * pow2 u
      in if pow2 1024 \<le> r then PInf else Fin r)"

definition to_double :: "rat \<Rightarrow> pyfloat" where
  "to_double q =
     (if q = 0 then Fin 0 else if 0 < q then round_pos q else fneg (round_pos (- q)))"

text \<open>
  \<open>float(s)\<close> for a string \<open>s\<close> of decimal digits with an optional fraction
  (\<open>1200\<close>, \<open>1200.50\<close>): the value of the numeral, correctly rounded. This is the shape
  the amount patterns capture once the commas are removed, and \<open>float\<close> never raises
  on it.
\<close>

definition rat_of_decimal :: "string \<Rightarrow> rat" where
  "rat_of_decimal s =
     (let ip = takeWhile (\<lambda>c. c \<noteq> CHR ''.'') s;
          fp = drop (Suc (length ip)) s
      in of_int (int_of_digits ip) + of_int (int_of_digits fp) / 10 ^ length fp)"

definition float_of_decimal :: "string \<Rightarrow> pyfloat" where
  "float_of_decimal s = to_double (rat_of_decimal s)"

text \<open>Values of type \<open>Any\<close>, as JSON decoding produces them. A dict has string keys
  and is an association list in which the first binding of a key counts.\<close>

datatype pyval =
    VNone
  | VBool bool
  | VInt int
  | VFloat pyfloat
  | VStr string
  | VList "pyval list"
  | VDict "(string \<times> pyval) list"

datatype pyerr = TypeError | ValueError | OverflowError | AttributeError

text \<open>Truth value of an object, as \<open>or\<close> tests it.\<close>

fun truthy :: "pyval \<Rightarrow> bool" where
  "truthy VNone = False"
| "truthy (VBool b) = b"
| "truthy (VInt n) = (n \<noteq> 0)"
| "truthy (VFloat f) = (f \<noteq> Fin 0)"
| "truthy (VStr s) = (s \<noteq> [])"
| "truthy (VList xs) = (xs \<noteq> [])"
| "truthy (VDict kvs) = (kvs \<noteq> [])"

text \<open>\<open>x or y\<close>\<close>

definition py_or :: "pyval \<Rightarrow> pyval \<Rightarrow> pyval" where
  "py_or x y = (if truthy x then x else y)"

text \<open>\<open>d.get(k)\<close> and \<open>d.get(k, default)\<close> on a dict.\<close>

definition dict_get :: "(string \<times> pyval) list \<Rightarrow> string \<Rightarrow> pyval \<Rightarrow> pyval" where
  "dict_get d k dflt = (case map_of d k of None \<Rightarrow> dflt | Some v \<Rightarrow> v)"

text \<open>\<open>p.get(k, default)\<close> on any object: only a dict has the method.\<close>

fun obj_get :: "pyval \<Rightarrow> string \<Rightarrow> pyval \<Rightarrow> pyerr + pyval" where
  "obj_get (VDict d) k dflt = Inr (dict_get d k dflt)"
| "obj_get v k dflt = Inl AttributeError"

subsection \<open>The conversions \<open>int(x)\<close> and \<open>float(x)\<close>\<close>

text \<open>
  A \<open>digitpart\<close> of Python's numeric grammar: digits, with single underscores allowed
  between two digits. \<open>digit_run\<close> returns the digits it read and the text left.
\<close>

fun digit_run :: "string \<Rightarrow> string \<times> string" where
  "digit_run [] = ([], [])"
| "digit_run [c] = (if is_digit c then ([c], []) else ([], [c]))"
| "digit_run (c # d # cs) =
     (if is_digit c then (case digit_run (d # cs) of (ds, r) \<Rightarrow> (c # ds, r))
      else if c = CHR ''_'' \<and> is_digit d then digit_run (d # cs)
      else ([], c # d # cs))"

definition digitpart :: "string \<Rightarrow> (string \<times> string) option" where
  "digitpart s =
     (case s of [] \<Rightarrow> None | c # cs \<Rightarrow> if is_digit c then Some (digit_run (c # cs)) else None)"

text \<open>An optional sign: the factor and the text after it.\<close>

definition split_sign :: "string \<Rightarrow> int \<times> string" where
  "split_sign s =
     (case s of
        [] \<Rightarrow> (1, [])
      | c # cs \<Rightarrow> if c = CHR ''-'' then (- 1, cs) else if c = CHR ''+'' then (1, cs) else (1, c # cs))"

text \<open>\<open>int(s)\<close> on a string, base 10: surrounding whitespace, an optional sign, a
  digitpart. \<open>None\<close> is \<open>ValueError\<close>. (The interpreter's limit on the number of digits
  of such a string, 4300 by default, is not modelled.)\<close>

definition int_of_str :: "string \<Rightarrow> int option" where
  "int_of_str s =
     (case split_sign (strip s) of (sg, body) \<Rightarrow>
        (case digitpart body of
           Some (ds, []) \<Rightarrow> Some (sg * int_of_digits ds)
         | _ \<Rightarrow> None))"

definition pow10 :: "int \<Rightarrow> rat" where
  "pow10 e = (if 0 \<le> e then 10 ^ nat e else 1 / 10 ^ nat (- e))"

text \<open>The mantissa of a float literal: \<open>[digitpart] "." digitpart | digitpart ["."]\<close>.
  The result is the integer digits, the fraction digits and the text left.\<close>

definition float_mantissa :: "string \<Rightarrow> (string \<times> string \<times> string) option" where
  "float_mantissa s =
     (case digitpart s of
        Some (ip, r) \<Rightarrow>
          (case r of
             [] \<Rightarrow> Some (ip, [], [])
           | c # r2 \<Rightarrow>
               if c = CHR ''.'' then
                 (case digitpart r2 of Some (fp, r3) \<Rightarrow> Some (ip, fp, r3) | None \<Rightarrow> Some (ip, [], r2))
               else Some (ip, [], c # r2))
      | None \<Rightarrow>
          (case s of
             [] \<Rightarrow> None
           | c # r2 \<Rightarrow>
               if c = CHR ''.'' then
                 (case digitpart r2 of Some (fp, r3) \<Rightarrow> Some ([], fp, r3) | None \<Rightarrow> None)
               else None))"

text \<open>The exponent part \<open>("e" | "E") [sign] digitpart\<close>, which must end the string; no
  exponent is the exponent 0.\<close>

definition float_exponent :: "string \<Rightarrow> int option" where
  "float_exponent s =
     (case s of
        [] \<Rightarrow> Some 0
      | c # r \<Rightarrow>
          if c = CHR ''e'' \<or> c = CHR ''E'' then
            (case split_sign r of (sg, body) \<Rightarrow>
               (case digitpart body of Some (ds, []) \<Rightarrow> Some (sg * int_of_digits ds) | _ \<Rightarrow> None))
          else None)"

text \<open>\<open>float(s)\<close> on a string: surrounding whitespace, an optional sign, then
  \<open>inf\<close>, \<open>infinity\<close> or \<open>nan\<close> in any case, or a decimal literal, correctly rounded.
  \<open>None\<close> is \<open>ValueError\<close>.\<close>

definition float_of_str :: "string \<Rightarrow> pyfloat option" where
  "float_of_str s =
     (case split_sign (strip s) of (sg, body) \<Rightarrow>
        (let w = lower body in
         if w = ''inf'' \<or> w = ''infinity'' then Some (if sg < 0 then NInf else PInf)
         else if w = ''nan'' then Some NaN
         else
           (case float_mantissa body of
              None \<Rightarrow> None
            | Some (ip, fp, r) \<Rightarrow>
                (case float_exponent r of
                   None \<Rightarrow> None
                 | Some e \<Rightarrow>
                     Some (to_double (of_int sg * of_int (int_of_digits (ip @ fp))
                                        * pow10 (e - int (length fp))))))))"

fun py_float :: "pyval \<Rightarrow> pyerr + pyfloat" where
  "py_float (VFloat f) = Inr f"
| "py_float (VInt n) =
     (case to_double (of_int n) of Fin r \<Rightarrow> Inr (Fin r) | _ \<Rightarrow> Inl OverflowError)"
| "py_float (VBool b) = Inr (Fin (if b then 1 else 0))"
| "py_float (VStr s) = (case float_of_str s of None \<Rightarrow> Inl ValueError | Some f \<Rightarrow> Inr f)"
| "py_float v = Inl TypeError"

fun py_int :: "pyval \<Rightarrow> pyerr + int" where
  "py_int (VInt n) = Inr n"
| "py_int (VBool b) = Inr (if b then 1 else 0)"
| "py_int (VFloat (Fin r)) = Inr (if 0 \<le> r then \<lfloor>r\<rfloor> else \<lceil>r\<rceil>)"
| "py_int (VFloat NaN) = Inl ValueError"
| "py_int (VFloat f) = Inl OverflowError"
| "py_int (VStr s) = (case int_of_str s of None \<Rightarrow> Inl ValueError | Some n \<Rightarrow> Inr n)"
| "py_int v = Inl TypeError"

subsection \<open>Formatting\<close>

text \<open>\<open>str(n)\<close> for an integer, as an f-string field \<open>{n}\<close> prints it.\<close>

definition digit_char :: "nat \<Rightarrow> char" where
  "digit_char d = ''0123456789'' ! d"

fun show_nat :: "nat \<Rightarrow> string" where
  "show_nat n =
     (if n < 10 then [digit_char n] else show_nat (n div 10) @ [digit_char (n mod 10)])"

declare show_nat.simps [simp del]

definition show_int :: "int \<Rightarrow> string" where
  "show_int i = (if i < 0 then CHR ''-'' # show_nat (nat (- i)) else show_nat (nat i))"

text \<open>The f-string fields \<open>{x:.2f}\<close> and \<open>{x:.0f}\<close> are \<open>format_fixed 2 x\<close> and
  \<open>format_fixed 0 x\<close>: the exact value of the double rounded to \<open>p\<close> decimals, ties to
  even.\<close>

definition format_fixed :: "nat \<Rightarrow> pyfloat \<Rightarrow> string" where
  "format_fixed p f =
     (case f of
        NaN \<Rightarrow> ''nan''
      | PInf \<Rightarrow> ''inf''
      | NInf \<Rightarrow> ''-inf''
      | Fin r \<Rightarrow>
          (let n = nat (round_half_even (\<bar>r\<bar> * 10 ^ p));
               ip = show_nat (n div 10 ^ p);
               fr = show_nat (n mod 10 ^ p);
               body = (if p = 0 then ip
                       else ip @ ''.'' @ replicate (p - length fr) CHR ''0'' @ fr)
           in if r < 0 then CHR ''-'' # body else body))"

section \<open>Amount extraction\<close>

text \<open>\<open>([0-9][0-9,]*(?:\.[0-9]+)?)\<close>, as group 1\<close>

definition rx_number :: rx where
  "rx_number =
     Grp 1 (seq [One [Rng CHR ''0'' CHR ''9''],
                 Rep [Rng CHR ''0'' CHR ''9'', Ch CHR '',''] 0 None,
                 Opt (Seq (ch CHR ''.'') (Rep [Rng CHR ''0'' CHR ''9''] 1 None))])"

text \<open>\<open>\$\s*([0-9][0-9,]*(?:\.[0-9]+)?)\<close>\<close>

definition rx_dollar :: rx where
  "rx_dollar = seq [ch CHR ''$'', Rep [Sp] 0 None, rx_number]"

text \<open>\<open>\b(?:cap|max(?:imum)?)\s*[:=]?\s*([0-9][0-9,]*(?:\.[0-9]+)?)\b\<close>\<close>

definition rx_labeled :: rx where
  "rx_labeled =
     seq [WordB, Alt (lit ''cap'') (Seq (lit ''max'') (Opt (lit ''imum''))),
          Rep [Sp] 0 None, Opt (One [Ch CHR '':'', Ch (CHR ''='')]), Rep [Sp] 0 None,
          rx_number, WordB]"

text \<open>\<open>float(m.group(1).replace(",", ""))\<close>\<close>

definition amount_of_match :: "mstate \<Rightarrow> pyfloat" where
  "amount_of_match m = float_of_decimal (filter (\<lambda>c. c \<noteq> CHR '','') (match_group m 1))"

text \<open>\<open>_parse_amount\<close> of \<open>agent/orchestrator.py\<close>: the \<open>$\<close> pattern only.\<close>

definition parse_amount :: "string \<Rightarrow> pyfloat option" where
  "parse_amount text =
     (let t = norm_str text in
      case rsearch rx_dollar t of None \<Rightarrow> None | Some m \<Rightarrow> Some (amount_of_match m))"

text \<open>\<open>_parse_money_amount\<close> of \<open>agent/policy.py\<close>: the \<open>$\<close> pattern, then the
  labelled one.\<close>

definition parse_money_amount :: "string \<Rightarrow> pyfloat option" where
  "parse_money_amount text =
     (let t = norm_str text in
      case rsearch rx_dollar t of
        Some m \<Rightarrow> Some (amount_of_match m)
      | None \<Rightarrow>
          (case rsearch rx_labeled t of None \<Rightarrow> None | Some m2 \<Rightarrow> Some (amount_of_match m2)))"

text \<open>\<open>_mentions_external_party\<close> of \<open>agent/orchestrator.py\<close>\<close>

definition external_words :: "string list" where
  "external_words = [''contractor'', ''external'', ''third party'', ''3rd party'', ''vendor'']"

definition mentions_external_party :: "string \<Rightarrow> bool" where
  "mentions_external_party text = any_in external_words (norm_str text)"

section \<open>Constraint parser (agent/policy.py)\<close>

definition NO_MEETINGS_AFTER_HOUR :: string where
  "NO_MEETINGS_AFTER_HOUR = ''NO_MEETINGS_AFTER_HOUR''"

definition BUDGET_CAP :: string where
  "BUDGET_CAP = ''BUDGET_CAP''"

definition NO_SHARING_WITH_EXTERNALS :: string where
  "NO_SHARING_WITH_EXTERNALS = ''NO_SHARING_WITH_EXTERNALS''"

definition HARD :: string where
  "HARD = ''HARD''"

record parsed_constraint =
  pc_id :: string
  pc_type :: string
  pc_severity :: string
  pc_text :: string
  pc_params :: "(string \<times> pyval) list"

definition err_time :: string where
  "err_time = ''Could not parse the time. Example: 'No meetings after 9pm'.''"

definition err_amount :: string where
  "err_amount = ''Could not parse the amount. Example: 'Budget cap $1000'.''"

definition err_unrecognized :: string where
  "err_unrecognized =
     ''Unrecognized constraint. Supported examples:'' @ [CHR 0x0A] @
     ''1) No meetings after 9pm'' @ [CHR 0x0A] @
     ''2) Budget cap $1000'' @ [CHR 0x0A] @
     ''3) Never share datasets with external contractors''"

text \<open>The three triggers of \<open>parse_constraint\<close>, on the normalized text.\<close>

definition meeting_family :: "string \<Rightarrow> bool" where
  "meeting_family t = ((py_in ''meeting'' t \<or> py_in ''call'' t) \<and> py_in ''after'' t)"

definition budget_family :: "string \<Rightarrow> bool" where
  "budget_family t =
     ((py_in ''budget'' t \<and> py_in ''cap'' t) \<or> (py_in ''max'' t \<and> py_in ''budget'' t)
      \<or> py_in ''budget cap'' t \<or> (py_in ''spend'' t \<and> py_in ''max'' t))"

definition sharing_family :: "string \<Rightarrow> bool" where
  "sharing_family t =
     (any_in [''share'', ''send'', ''export'', ''give'', ''forward''] t
      \<and> any_in [''dataset'', ''data'', ''file'', ''files''] t
      \<and> any_in [''contractor'', ''external'', ''third party'', ''3rd party'', ''vendor''] t)"

text \<open>
  \<open>parse_constraint(user_text)\<close> returns the pair \<open>(constraint, error)\<close>. The
  argument \<open>uuid_hex\<close> is the value of \<open>uuid4().hex\<close> in this call. (The source also
  computes \<open>deny_words\<close>, which it never reads.)
\<close>

definition parse_constraint ::
    "string \<Rightarrow> string \<Rightarrow> parsed_constraint option \<times> string option" where
  "parse_constraint uuid_hex user_text =
     (let raw = strip user_text;
          t = norm_str raw;
          mk = (\<lambda>ty ps. \<lparr>pc_id = ''c-'' @ take 8 uuid_hex, pc_type = ty, pc_severity = HARD,
                         pc_text = raw, pc_params = ps\<rparr>)
      in if meeting_family t then
           (case policy_parse_time_to_hour t of
              None \<Rightarrow> (None, Some err_time)
            | Some hour \<Rightarrow> (Some (mk NO_MEETINGS_AFTER_HOUR [(''hour'', VInt hour)]), None))
         else if budget_family t then
           (case parse_money_amount t of
              None \<Rightarrow> (None, Some err_amount)
            | Some amt \<Rightarrow> (Some (mk BUDGET_CAP [(''max_amount'', VFloat amt)]), None))
         else if sharing_family t then
           (let banned_party = (if py_in ''contractor'' t then ''contractor'' else ''external'')
            in (Some (mk NO_SHARING_WITH_EXTERNALS [(''banned_party'', VStr banned_party)]), None))
         else (None, Some err_unrecognized))"

section \<open>Policy evaluator (agent/orchestrator.py)\<close>

text \<open>
  A stored constraint is a dict with string keys. \<open>evaluate_request\<close> first copies
  each into a dict with the five keys \<open>id\<close>, \<open>type\<close>, \<open>severity\<close>, \<open>params\<close>,
  \<open>text\<close>; the record \<open>nconstraint\<close> is that dict.
\<close>

record nconstraint =
  nc_id :: pyval
  nc_type :: pyval
  nc_severity :: pyval
  nc_params :: pyval
  nc_text :: pyval

definition normalize_constraint :: "(string \<times> pyval) list \<Rightarrow> nconstraint" where
  "normalize_constraint c =
     \<lparr>nc_id = py_or (py_or (dict_get c ''constraint_id'' VNone) (dict_get c ''id'' VNone))
                  (dict_get c ''constraintId'' VNone),
      nc_type = dict_get c ''type'' VNone,
      nc_severity = dict_get c ''severity'' (VStr ''HARD''),
      nc_params = py_or (dict_get c ''params'' (VDict [])) (VDict []),
      nc_text = dict_get c ''text'' (VStr [])\<rparr>"

definition alternatives_for_meeting :: "int \<Rightarrow> string list" where
  "alternatives_for_meeting max_hour =
     (let safe_hour = min max_hour 20 in
      [''Schedule it at '' @ show_int safe_hour @ '':00 (8pm) instead of after ''
         @ show_int max_hour @ '':00.'',
       ''Schedule it tomorrow at 8:00pm.'',
       ''If it must be late, ask for an explicit exception/override first.''])"

definition alternatives_for_sharing :: "string list" where
  "alternatives_for_sharing =
     [''Share a redacted/synthetic dataset instead of the full customer dataset.'',
      ''Share only aggregated metrics or schema, not raw records.'',
      ''Route the request through an approved internal channel or get written approval.'']"

definition alternatives_for_budget :: "pyfloat \<Rightarrow> string list" where
  "alternatives_for_budget max_amount =
     [''Reduce scope to stay within the $'' @ format_fixed 0 max_amount @ '' budget cap.'',
      ''Request approval to increase budget (one-time exception).'',
      ''Split the purchase into phases or use a lower-cost alternative.'']"

definition meeting_reason :: "int \<Rightarrow> int \<Rightarrow> string" where
  "meeting_reason req_hour max_hour =
     ''Requested meeting at '' @ show_int req_hour @ '':00 exceeds allowed end hour ''
       @ show_int max_hour @ '':00''"

definition sharing_reason :: string where
  "sharing_reason = ''Request involves external/contractor sharing, which is prohibited''"

definition budget_reason :: "pyfloat \<Rightarrow> pyfloat \<Rightarrow> string" where
  "budget_reason amt cap =
     ''Requested spend $'' @ format_fixed 2 amt @ '' exceeds budget cap $'' @ format_fixed 2 cap"

text \<open>The two lists the MATCH step fills: \<open>violations\<close>, pairs of a constraint id and a
  reason, and \<open>alternatives\<close>.\<close>

type_synonym acc = "(pyval \<times> string) list \<times> string list"

text \<open>\<open>max_hour = int(c["params"].get("hour", 21))\<close>\<close>

definition max_hour_of :: "nconstraint \<Rightarrow> pyerr + int" where
  "max_hour_of c =
     (case obj_get (nc_params c) ''hour'' (VInt 21) of Inl e \<Rightarrow> Inl e | Inr v \<Rightarrow> py_int v)"

text \<open>\<open>cap = float(c["params"].get("max_amount", 0))\<close>\<close>

definition cap_of :: "nconstraint \<Rightarrow> pyerr + pyfloat" where
  "cap_of c =
     (case obj_get (nc_params c) ''max_amount'' (VInt 0) of Inl e \<Rightarrow> Inl e | Inr v \<Rightarrow> py_float v)"

text \<open>The bodies of the three \<open>for c in normalized_constraints\<close> loops: what one
  constraint appends to the two lists, or the exception it raises.\<close>

definition meeting_check :: "int option \<Rightarrow> nconstraint \<Rightarrow> pyerr + acc" where
  "meeting_check req_hour c =
     (if nc_type c = VStr NO_MEETINGS_AFTER_HOUR then
        (case max_hour_of c of
           Inl e \<Rightarrow> Inl e
         | Inr max_hour \<Rightarrow>
             (case req_hour of
                None \<Rightarrow> Inr ([], [])
              | Some r \<Rightarrow>
                  if max_hour < r
                  then Inr ([(nc_id c, meeting_reason r max_hour)], alternatives_for_meeting max_hour)
                  else Inr ([], [])))
      else Inr ([], []))"

definition sharing_check :: "nconstraint \<Rightarrow> pyerr + acc" where
  "sharing_check c =
     (if nc_type c = VStr NO_SHARING_WITH_EXTERNALS
      then Inr ([(nc_id c, sharing_reason)], alternatives_for_sharing)
      else Inr ([], []))"

definition budget_check :: "pyfloat option \<Rightarrow> nconstraint \<Rightarrow> pyerr + acc" where
  "budget_check amt c =
     (if nc_type c = VStr BUDGET_CAP then
        (case cap_of c of
           Inl e \<Rightarrow> Inl e
         | Inr cap \<Rightarrow>
             (case amt of
                None \<Rightarrow> Inr ([], [])
              | Some a \<Rightarrow>
                  if fgt cap (Fin 0) \<and> fgt a cap
                  then Inr ([(nc_id c, budget_reason a cap)], alternatives_for_budget cap)
                  else Inr ([], [])))
      else Inr ([], []))"

text \<open>A loop over the constraints: each body appends to both lists; an exception ends
  the loop.\<close>

fun run_checks :: "(nconstraint \<Rightarrow> pyerr + acc) \<Rightarrow> nconstraint list \<Rightarrow> acc \<Rightarrow> pyerr + acc" where
  "run_checks f [] a = Inr a"
| "run_checks f (c # cs) a =
     (case f c of
        Inl e \<Rightarrow> Inl e
      | Inr (vs, alts) \<Rightarrow> run_checks f cs (fst a @ vs, snd a @ alts))"

text \<open>Checks A, B and C of \<open>evaluate_request\<close>, in this order.\<close>

definition match_step :: "action_type \<Rightarrow> string \<Rightarrow> nconstraint list \<Rightarrow> pyerr + acc" where
  "match_step atype user_request ncs =
     (case (if atype = SCHEDULE_MEETING
            then run_checks (meeting_check (orchestrator_parse_time_to_hour user_request)) ncs ([], [])
            else Inr ([], [])) of
        Inl e \<Rightarrow> Inl e
      | Inr a1 \<Rightarrow>
          (case (if atype = SHARE_DATA \<and> mentions_external_party user_request
                 then run_checks sharing_check ncs a1 else Inr a1) of
             Inl e \<Rightarrow> Inl e
           | Inr a2 \<Rightarrow>
               (if atype = SPEND_MONEY
                then run_checks (budget_check (parse_amount user_request)) ncs a2
                else Inr a2)))"

text \<open>The deduplication loop: \<open>uniq_alts\<close> and the set \<open>seen\<close>.\<close>

fun dedup_loop :: "string list \<Rightarrow> string list \<Rightarrow> string set \<Rightarrow> string list" where
  "dedup_loop [] uniq seen = uniq"
| "dedup_loop (a # as) uniq seen =
     (if a \<notin> seen then dedup_loop as (uniq @ [a]) (insert a seen) else dedup_loop as uniq seen)"

text \<open>
  What a run takes from outside the program: the value of \<open>uuid4().hex\<close>, the value of
  \<open>datetime.utcnow().isoformat(timespec="seconds")\<close>, and the rows the graph store
  answers \<open>explain_violations\<close> with. The calls to the graph client are returned as a
  log, in the order the run makes them; a failure of the graph store itself is not
  modelled.
\<close>

record env =
  uuid_hex :: string
  utcnow_iso :: string
  explain_rows :: "pyval list"

record action_payload =
  ap_id :: string
  ap_type :: action_type
  ap_text :: string
  ap_ts :: "string option"

datatype neo_call =
    RecordAction string action_payload
  | RecordViolation string pyval string
  | ExplainViolations string string

record decision =
  d_ok :: bool
  d_action_id :: string
  d_action_type :: action_type
  d_message :: string
  d_violations :: "pyval list"
  d_alternatives :: "string list"

definition evaluate_request ::
    "env \<Rightarrow> string \<Rightarrow> string \<Rightarrow> (string \<times> pyval) list list \<Rightarrow> neo_call list \<times> (pyerr + decision)" where
  "evaluate_request e user_id user_request constraints =
     (let atype = classify_action user_request;
          aid = ''a-'' @ take 10 (uuid_hex e);
          rec = RecordAction user_id
                  \<lparr>ap_id = aid, ap_type = atype, ap_text = user_request,
                   ap_ts = Some (utcnow_iso e @ ''Z'')\<rparr>;
          ncs = map normalize_constraint constraints
      in case match_step atype user_request ncs of
           Inl err \<Rightarrow> ([rec], Inl err)
         | Inr (violations, alternatives) \<Rightarrow>
             if violations \<noteq> [] then
               (rec # map (\<lambda>(cid, reason). RecordViolation aid cid reason) violations
                  @ [ExplainViolations user_id aid],
                Inr \<lparr>d_ok = False, d_action_id = aid, d_action_type = atype,
                     d_message = ''Blocked: request violates one or more persistent constraints.'',
                     d_violations = explain_rows e,
                     d_alternatives = take 5 (dedup_loop alternatives [] {})\<rparr>)
             else
               ([rec],
                Inr \<lparr>d_ok = True, d_action_id = aid, d_action_type = atype,
                     d_message = ''Approved: no constraint violations detected.'',
                     d_violations = [], d_alternatives = []\<rparr>))"

section \<open>Reading a run\<close>

text \<open>The violations a run records: the arguments of its \<open>record_violation\<close> calls,
  in order.\<close>

fun recorded_violations :: "neo_call list \<Rightarrow> (pyval \<times> string) list" where
  "recorded_violations [] = []"
| "recorded_violations (RecordViolation aid cid reason # cs) = (cid, reason) # recorded_violations cs"
| "recorded_violations (c # cs) = recorded_violations cs"

text \<open>What a run returns, without the action id: the exception, or the other five
  fields of the Decision.\<close>

definition outcome_view ::
    "pyerr + decision \<Rightarrow> pyerr + (bool \<times> action_type \<times> string \<times> pyval list \<times> string list)" where
  "outcome_view r =
     map_sum id (\<lambda>d. (d_ok d, d_action_type d, d_message d, d_violations d, d_alternatives d)) r"

text \<open>
  Deduplication by equality that preserves the first-seen order, as the specification
  words it: keep an element, drop its later copies, go on with the rest.
\<close>

fun dedup_first_seen :: "'a list \<Rightarrow> 'a list" where
  "dedup_first_seen [] = []"
| "dedup_first_seen (x # xs) = x # dedup_first_seen (filter (\<lambda>y. y \<noteq> x) xs)"

subsection \<open>Example inputs\<close>

definition ex_env :: env where
  "ex_env = \<lparr>uuid_hex = ''0123456789abcdef0123456789abcdef'',
             utcnow_iso = ''2026-01-01T00:00:00'', explain_rows = []\<rparr>"

definition ex_env2 :: env where
  "ex_env2 = \<lparr>uuid_hex = ''fedcba9876543210fedcba9876543210'',
              utcnow_iso = ''2026-02-02T12:30:00'', explain_rows = []\<rparr>"

definition hour_constraint :: "string \<Rightarrow> int \<Rightarrow> (string \<times> pyval) list" where
  "hour_constraint cid h =
     [(''id'', VStr cid), (''type'', VStr ''NO_MEETINGS_AFTER_HOUR''), (''severity'', VStr ''HARD''),
      (''text'', VStr ''No meetings after hours''), (''params'', VDict [(''hour'', VInt h)])]"

definition budget_constraint :: "string \<Rightarrow> pyfloat \<Rightarrow> (string \<times> pyval) list" where
  "budget_constraint cid cap =
     [(''id'', VStr cid), (''type'', VStr ''BUDGET_CAP''), (''severity'', VStr ''HARD''),
      (''text'', VStr ''Budget cap''), (''params'', VDict [(''max_amount'', VFloat cap)])]"

definition sharing_constraint :: "string \<Rightarrow> string \<Rightarrow> (string \<times> pyval) list" where
  "sharing_constraint cid party =
     [(''id'', VStr cid), (''type'', VStr ''NO_SHARING_WITH_EXTERNALS''), (''severity'', VStr ''HARD''),
      (''text'', VStr ''Never share datasets with external contractors''),
      (''params'', VDict [(''banned_party'', VStr party)])]"

text \<open>A stored constraint without the key \<open>params\<close>.\<close>

definition bare_constraint :: "string \<Rightarrow> string \<Rightarrow> (string \<times> pyval) list" where
  "bare_constraint cid ty = [(''id'', VStr cid), (''type'', VStr ty)]"

section \<open>Groups a pattern always binds\<close>

text \<open>\<open>binds i r\<close>: every match of \<open>r\<close> goes through a group numbered \<open>i\<close>.\<close>

fun binds :: "nat \<Rightarrow> rx \<Rightarrow> bool" where
  "binds i (Grp j a) = (i = j \<or> binds i a)"
| "binds i (Seq a b) = (binds i a \<or> binds i b)"
| "binds i (Alt a b) = (binds i a \<and> binds i b)"
| "binds i r = False"

section \<open>Properties of the text primitives\<close>

lemma starts_with_iff: "starts_with t w \<longleftrightarrow> (\<exists>ss. t = w @ ss)"
  by (induction t w rule: starts_with.induct) auto

text \<open>\<open>py_in\<close> is the substring relation.\<close>

lemma py_in_iff: "py_in w t \<longleftrightarrow> (\<exists>ps ss. t = ps @ w @ ss)"
proof (induction t)
  case Nil
  then show ?case by auto
next
  case (Cons c cs)
  show ?case
  proof
    assume "py_in w (c # cs)"
    then consider "starts_with (c # cs) w" | "py_in w cs" by auto
    then show "\<exists>ps ss. c # cs = ps @ w @ ss"
    proof cases
      case 1
      then obtain ss where "c # cs = w @ ss" by (auto simp: starts_with_iff)
      then have "c # cs = [] @ w @ ss" by simp
      then show ?thesis by blast
    next
      case 2
      then obtain ps ss where "cs = ps @ w @ ss" using Cons.IH by auto
      then have "c # cs = (c # ps) @ w @ ss" by simp
      then show ?thesis by blast
    qed
  next
    assume "\<exists>ps ss. c # cs = ps @ w @ ss"
    then obtain ps ss where eq: "c # cs = ps @ w @ ss" by auto
    show "py_in w (c # cs)"
    proof (cases ps)
      case Nil
      with eq have "starts_with (c # cs) w" by (auto simp: starts_with_iff)
      then show ?thesis by simp
    next
      case (Cons p ps')
      with eq have "cs = ps' @ w @ ss" by simp
      then have "py_in w cs" using Cons.IH by blast
      then show ?thesis by simp
    qed
  qed
qed

lemma code_char_of: "n < 256 \<Longrightarrow> code (char_of n) = n"
  by (simp add: code_def)

lemma is_space_lower_char: "is_space (lower_char c) = is_space c"
  by (auto simp: lower_char_def is_space_def is_upper_def code_char_of)

lemma dropWhile_keeps:
  assumes "w \<noteq> []" "\<forall>c\<in>set w. \<not> P c"
  shows "\<exists>ps'. dropWhile P (ps @ w @ ss) = ps' @ w @ ss"
proof (cases "\<forall>x\<in>set ps. P x")
  case True
  from assms obtain c cs where w: "w = c # cs" and "\<not> P c" by (cases w) auto
  then have "dropWhile P (w @ ss) = w @ ss" by simp
  with True have "dropWhile P (ps @ w @ ss) = [] @ w @ ss" by (simp add: dropWhile_append)
  then show ?thesis by blast
next
  case False
  then have "dropWhile P (ps @ w @ ss) = dropWhile P ps @ w @ ss"
    by (auto simp: dropWhile_append)
  then show ?thesis by blast
qed

lemma strip_keeps:
  assumes "w \<noteq> []" "\<forall>c\<in>set w. \<not> is_space c"
  shows "\<exists>ps' ss'. strip (ps @ w @ ss) = ps' @ w @ ss'"
proof -
  obtain ps1 where 1: "dropWhile is_space (ps @ w @ ss) = ps1 @ w @ ss"
    using dropWhile_keeps[OF assms] by blast
  have "rev w \<noteq> []" "\<forall>c\<in>set (rev w). \<not> is_space c" using assms by auto
  from dropWhile_keeps[OF this, of "rev ss" "rev ps1"]
  obtain ss1 where 2: "dropWhile is_space (rev ss @ rev w @ rev ps1) = ss1 @ rev w @ rev ps1"
    by blast
  have "strip (ps @ w @ ss) = ps1 @ w @ rev ss1"
    by (simp add: strip_def 1 2)
  then show ?thesis by blast
qed

lemma sub_ws_no_space: "\<forall>c\<in>set w. \<not> is_space c \<Longrightarrow> sub_ws b w = w"
  by (induction w arbitrary: b) auto

lemma sub_ws_append:
  "sub_ws b (xs @ ys) = sub_ws b xs @ sub_ws (if xs = [] then b else is_space (last xs)) ys"
  by (induction xs arbitrary: b) auto

lemma sub_ws_keeps:
  assumes "\<forall>c\<in>set w. \<not> is_space c"
  shows "\<exists>ps' ss'. sub_ws b (ps @ w @ ss) = ps' @ w @ ss'"
  by (metis sub_ws_append sub_ws_no_space assms)

lemma norm_str_keeps:
  assumes "w \<noteq> []" "\<forall>c\<in>set w. \<not> is_space c"
  shows "\<exists>ps' ss'. norm_str (ps @ w @ ss) = ps' @ lower w @ ss'"
proof -
  obtain p1 s1 where 1: "strip (ps @ w @ ss) = p1 @ w @ s1"
    using strip_keeps[OF assms] by blast
  have 2: "lower (p1 @ w @ s1) = lower p1 @ lower w @ lower s1" by (simp add: lower_def)
  have "\<forall>c\<in>set (lower w). \<not> is_space c"
    using assms(2) by (auto simp: lower_def is_space_lower_char)
  from sub_ws_keeps[OF this] show ?thesis by (simp add: norm_str_def 1 2)
qed

text \<open>A word without whitespace that occurs in a text occurs, in lower case, in the
  normalized text.\<close>

lemma py_in_norm_str:
  assumes "py_in w u" "w \<noteq> []" "\<forall>c\<in>set w. \<not> is_space c"
  shows "py_in (lower w) (norm_str u)"
  using assms norm_str_keeps[OF assms(2,3)] unfolding py_in_iff by metis

lemma lower_no_space: "\<forall>c\<in>set (lower w). \<not> is_space c \<Longrightarrow> \<forall>c\<in>set w. \<not> is_space c"
  by (auto simp: lower_def is_space_lower_char)

lemma any_inI: "w \<in> set ws \<Longrightarrow> py_in w t \<Longrightarrow> any_in ws t"
  by (auto simp: any_in_def list_ex_iff)

lemma meeting_words_plain: "k \<in> set meeting_words \<Longrightarrow> k \<noteq> [] \<and> (\<forall>c\<in>set k. \<not> is_space c)"
  by (auto simp: meeting_words_def is_space_def code_def)

section \<open>The action classifier\<close>

lemma meeting_word_wins:
  assumes "py_in w u" "lower w \<in> set meeting_words"
  shows "classify_action u = SCHEDULE_MEETING"
proof -
  from meeting_words_plain[OF assms(2)]
  have ne: "lower w \<noteq> []" and ns: "\<forall>c\<in>set (lower w). \<not> is_space c" by auto
  from ne have "w \<noteq> []" by (auto simp: lower_def)
  moreover from ns have "\<forall>c\<in>set w. \<not> is_space c" by (rule lower_no_space)
  ultimately have "py_in (lower w) (norm_str u)" using assms(1) by (intro py_in_norm_str)
  with assms(2) have "any_in meeting_words (norm_str u)" by (intro any_inI)
  then show ?thesis by (simp add: classify_action_def)
qed

lemma py_in_sublist: "py_in w t \<longleftrightarrow> sublist w t"
  by (simp add: py_in_iff sublist_def)

lemma any_in_sublist: "any_in ws t \<longleftrightarrow> (\<exists>k\<in>set ws. sublist k t)"
  by (simp add: any_in_def list_ex_iff py_in_sublist)

lemma is_space_blank: "is_space CHR '' ''"
  by (simp add: is_space_def code_def)

lemma prefix_sub_ws:
  assumes "\<forall>c\<in>set k. \<not> is_space c" "prefix k (sub_ws False t)"
  shows "prefix k t"
  using assms
proof (induction t arbitrary: k)
  case Nil
  then show ?case by simp
next
  case (Cons c cs)
  show ?case
  proof (cases k)
    case Nil
    then show ?thesis by simp
  next
    case k: (Cons d ds)
    show ?thesis
    proof (cases "is_space c")
      case True
      with Cons.prems(2) k have "d = CHR '' ''" by simp
      with Cons.prems(1) k is_space_blank show ?thesis by auto
    next
      case False
      with Cons.prems(2) k have d: "d = c" and p: "prefix ds (sub_ws False cs)" by auto
      from Cons.prems(1) k have "\<forall>c\<in>set ds. \<not> is_space c" by simp
      from Cons.IH[OF this p] d k show ?thesis by simp
    qed
  qed
qed

lemma sublist_sub_ws:
  assumes "k \<noteq> []" "\<forall>c\<in>set k. \<not> is_space c" "sublist k (sub_ws b t)"
  shows "sublist k t"
  using assms(3)
proof (induction t arbitrary: b)
  case Nil
  with assms(1) show ?case by simp
next
  case (Cons c cs)
  from assms(1) obtain d ds where k: "k = d # ds" by (cases k) auto
  with assms(2) have nd: "\<not> is_space d" by simp
  show ?case
  proof (cases "is_space c")
    case True
    have "sublist k (sub_ws True cs)"
    proof (cases b)
      case True
      with \<open>is_space c\<close> Cons.prems show ?thesis by simp
    next
      case False
      with \<open>is_space c\<close> Cons.prems have "sublist k (CHR '' '' # sub_ws True cs)" by simp
      then have "prefix k (CHR '' '' # sub_ws True cs) \<or> sublist k (sub_ws True cs)"
        by (simp add: sublist_Cons_right)
      moreover have "\<not> prefix k (CHR '' '' # sub_ws True cs)"
        using k nd is_space_blank by auto
      ultimately show ?thesis by blast
    qed
    from Cons.IH[OF this] show ?thesis by (simp add: sublist_Cons_right)
  next
    case False
    with Cons.prems have "sublist k (c # sub_ws False cs)" by simp
    then consider "prefix k (c # sub_ws False cs)" | "sublist k (sub_ws False cs)"
      by (auto simp: sublist_Cons_right)
    then show ?thesis
    proof cases
      case 1
      with False have "prefix k (sub_ws False (c # cs))" by simp
      from prefix_sub_ws[OF assms(2) this] show ?thesis by (rule prefix_imp_sublist)
    next
      case 2
      from Cons.IH[OF this] show ?thesis by (simp add: sublist_Cons_right)
    qed
  qed
qed

lemma sublist_strip: "sublist (strip u) u"
proof -
  have 1: "suffix (dropWhile is_space u) u" by (rule suffix_dropWhile)
  have "suffix (dropWhile is_space (rev (dropWhile is_space u))) (rev (dropWhile is_space u))"
    by (rule suffix_dropWhile)
  then have 2: "prefix (strip u) (dropWhile is_space u)"
    by (simp add: suffix_to_prefix strip_def)
  from 2 have "sublist (strip u) (dropWhile is_space u)" by (rule prefix_imp_sublist)
  moreover from 1 have "sublist (dropWhile is_space u) u" by (rule suffix_imp_sublist)
  ultimately show ?thesis by (rule sublist_order.order_trans)
qed

lemma sublist_lower: "sublist a b \<Longrightarrow> sublist (lower a) (lower b)"
  unfolding lower_def by (rule map_mono_sublist)

lemma lower_char_dollar: "lower_char c = CHR ''$'' \<longleftrightarrow> c = CHR ''$''"
proof (cases "is_upper c")
  case True
  then have "code (lower_char c) = code c + 32"
    by (simp add: lower_char_def is_upper_def code_char_of)
  with True have "code (lower_char c) \<noteq> code CHR ''$''"
    by (simp add: is_upper_def code_def)
  moreover from True have "c \<noteq> CHR ''$''" by (auto simp: is_upper_def code_def)
  ultimately show ?thesis by auto
next
  case False
  then show ?thesis by (simp add: lower_char_def)
qed

lemma norm_str_occurs:
  assumes "k \<noteq> []" "\<forall>c\<in>set k. \<not> is_space c"
  shows "sublist k (norm_str u) \<longleftrightarrow> sublist k (lower u)"
proof
  assume "sublist k (norm_str u)"
  then have "sublist k (lower (strip u))"
    unfolding norm_str_def by (rule sublist_sub_ws[OF assms])
  moreover have "sublist (lower (strip u)) (lower u)" by (rule sublist_lower[OF sublist_strip])
  ultimately show "sublist k (lower u)" by (rule sublist_order.order_trans)
next
  assume "sublist k (lower u)"
  then obtain ps ss where "lower u = ps @ (k @ ss)" unfolding sublist_def by blast
  then have "map lower_char u = ps @ (k @ ss)" by (simp only: lower_def)
  then have "\<exists>us vs. u = us @ vs \<and> ps = map lower_char us \<and> k @ ss = map lower_char vs"
    by (simp only: map_eq_append_conv)
  then obtain ps' vs where 1: "u = ps' @ vs" and 2: "k @ ss = map lower_char vs" by blast
  from 2 have "map lower_char vs = k @ ss" by (rule sym)
  then have "\<exists>us ws. vs = us @ ws \<and> k = map lower_char us \<and> ss = map lower_char ws"
    by (simp only: map_eq_append_conv)
  then obtain w ss' where 3: "vs = w @ ss'" and w0: "k = map lower_char w" by blast
  from w0 have w: "lower w = k" by (simp only: lower_def)
  from 1 3 have u: "u = ps' @ w @ ss'" by simp
  from w0 assms(1) have ne: "w \<noteq> []" by auto
  from assms(2) have "\<forall>c\<in>set (lower w). \<not> is_space c" by (simp only: w)
  then have ns: "\<forall>c\<in>set w. \<not> is_space c" by (rule lower_no_space)
  from norm_str_keeps[OF ne ns, of ps' ss'] obtain p s
    where "norm_str (ps' @ w @ ss') = p @ lower w @ s" by blast
  with u w have "norm_str u = p @ k @ s" by simp
  then show "sublist k (norm_str u)" unfolding sublist_def by blast
qed



lemma dollar_in_lower: "CHR ''$'' \<in> set (lower u) \<longleftrightarrow> CHR ''$'' \<in> set u"
  by (induction u) (simp_all add: lower_def lower_char_dollar eq_commute[of "CHR ''$''"])

lemma sublist_single: "sublist [x] t \<longleftrightarrow> x \<in> set t"
proof
  assume "sublist [x] t"
  then show "x \<in> set t" unfolding sublist_def by auto
next
  assume "x \<in> set t"
  then obtain ps ss where "t = ps @ x # ss" by (auto simp: in_set_conv_decomp)
  then have "t = ps @ [x] @ ss" by simp
  then show "sublist [x] t" unfolding sublist_def by blast
qed

lemma dollar_occurs: "py_in ''$'' (norm_str u) \<longleftrightarrow> CHR ''$'' \<in> set u"
proof -
  have "sublist ''$'' (norm_str u) \<longleftrightarrow> sublist ''$'' (lower u)"
    by (rule norm_str_occurs) (simp_all add: is_space_def code_def)
  then show ?thesis
    by (simp only: py_in_sublist sublist_single dollar_in_lower)
qed

lemma keyword_occurs:
  assumes "\<forall>k\<in>set ws. k \<noteq> [] \<and> (\<forall>c\<in>set k. \<not> is_space c)"
  shows "any_in ws (norm_str u) \<longleftrightarrow> (\<exists>k\<in>set ws. sublist k (lower u))"
proof -
  have "\<And>k. k \<in> set ws \<Longrightarrow> sublist k (norm_str u) \<longleftrightarrow> sublist k (lower u)"
    using assms by (intro norm_str_occurs) blast+
  then show ?thesis unfolding any_in_sublist by blast
qed

lemma meeting_occurs:
  "any_in meeting_words (norm_str u)
     \<longleftrightarrow> (\<exists>k\<in>set [''meeting'', ''call'', ''schedule'', ''book'', ''invite'']. sublist k (lower u))"
  unfolding meeting_words_def
  by (rule keyword_occurs) (simp add: is_space_def code_def)

lemma share_occurs:
  "any_in share_words (norm_str u)
     \<longleftrightarrow> (\<exists>k\<in>set [''share'', ''send'', ''export'', ''forward'', ''upload'']. sublist k (lower u))"
  unfolding share_words_def
  by (rule keyword_occurs) (simp add: is_space_def code_def)

lemma data_occurs:
  "any_in data_words (norm_str u)
     \<longleftrightarrow> (\<exists>k\<in>set [''dataset'', ''data'', ''file'', ''files'', ''csv'']. sublist k (lower u))"
  unfolding data_words_def
  by (rule keyword_occurs) (simp add: is_space_def code_def)

lemma spend_occurs:
  "any_in spend_words (norm_str u)
     \<longleftrightarrow> (\<exists>k\<in>set [''buy'', ''purchase'', ''spend'', ''pay'', ''order'']. sublist k (lower u))"
  unfolding spend_words_def
  by (rule keyword_occurs) (simp add: is_space_def code_def)

lemma classify_action_keywords:
  "classify_action u =
     (if \<exists>k\<in>set [''meeting'', ''call'', ''schedule'', ''book'', ''invite'']. sublist k (lower u)
      then SCHEDULE_MEETING
      else if (\<exists>k\<in>set [''share'', ''send'', ''export'', ''forward'', ''upload'']. sublist k (lower u))
              \<and> (\<exists>k\<in>set [''dataset'', ''data'', ''file'', ''files'', ''csv'']. sublist k (lower u))
      then SHARE_DATA
      else if (\<exists>k\<in>set [''buy'', ''purchase'', ''spend'', ''pay'', ''order'']. sublist k (lower u))
              \<or> CHR ''$'' \<in> set u
      then SPEND_MONEY
      else UNKNOWN)"
  unfolding classify_action_def Let_def meeting_occurs share_occurs data_occurs spend_occurs
    dollar_occurs ..


text \<open>
  C6. \<open>classify_action\<close> tries its rules in a fixed order, each on the utterance in
  lower case: one of the words meeting, call, schedule, book, invite occurs in it, then
  \<open>SCHEDULE_MEETING\<close>; else one of share, send, export, forward, upload occurs
  together with one of dataset, data, file, files, csv, then \<open>SHARE_DATA\<close>; else one
  of buy, purchase, spend, pay, order occurs or the utterance has a dollar sign, then
  \<open>SPEND_MONEY\<close>; else \<open>UNKNOWN\<close>. A keyword occurs when it is a contiguous part
  of the text; stripping and the collapsing of whitespace change none of these
  occurrences. So an utterance with a meeting word and a sharing word is classified
  \<open>SCHEDULE_MEETING\<close>, whatever else it holds. The classifier is a function of the
  utterance alone.
\<close>

theorem classify_action_order:
  "classify_action u =
     (if \<exists>k\<in>set [''meeting'', ''call'', ''schedule'', ''book'', ''invite'']. sublist k (lower u)
      then SCHEDULE_MEETING
      else if (\<exists>k\<in>set [''share'', ''send'', ''export'', ''forward'', ''upload'']. sublist k (lower u))
              \<and> (\<exists>k\<in>set [''dataset'', ''data'', ''file'', ''files'', ''csv'']. sublist k (lower u))
      then SHARE_DATA
      else if (\<exists>k\<in>set [''buy'', ''purchase'', ''spend'', ''pay'', ''order'']. sublist k (lower u))
              \<or> CHR ''$'' \<in> set u
      then SPEND_MONEY
      else UNKNOWN)
   \<and> (\<forall>m s. m \<in> set [''meeting'', ''call'', ''schedule'', ''book'', ''invite''] \<and> sublist m (lower u)
            \<and> s \<in> set [''share'', ''send'', ''export'', ''forward'', ''upload''] \<and> sublist s (lower u)
          \<longrightarrow> classify_action u = SCHEDULE_MEETING)"
proof (intro conjI allI impI)
  show "classify_action u =
     (if \<exists>k\<in>set [''meeting'', ''call'', ''schedule'', ''book'', ''invite'']. sublist k (lower u)
      then SCHEDULE_MEETING
      else if (\<exists>k\<in>set [''share'', ''send'', ''export'', ''forward'', ''upload'']. sublist k (lower u))
              \<and> (\<exists>k\<in>set [''dataset'', ''data'', ''file'', ''files'', ''csv'']. sublist k (lower u))
      then SHARE_DATA
      else if (\<exists>k\<in>set [''buy'', ''purchase'', ''spend'', ''pay'', ''order'']. sublist k (lower u))
              \<or> CHR ''$'' \<in> set u
      then SPEND_MONEY
      else UNKNOWN)"
    by (rule classify_action_keywords)
next
  fix m s
  assume "m \<in> set [''meeting'', ''call'', ''schedule'', ''book'', ''invite''] \<and> sublist m (lower u)
            \<and> s \<in> set [''share'', ''send'', ''export'', ''forward'', ''upload''] \<and> sublist s (lower u)"
  then have "\<exists>k\<in>set [''meeting'', ''call'', ''schedule'', ''book'', ''invite'']. sublist k (lower u)"
    by blast
  then show "classify_action u = SCHEDULE_MEETING"
    by (simp only: classify_action_keywords if_True)
qed

theorem classify_action_order_witness:
  "''meeting'' \<in> set [''meeting'', ''call'', ''schedule'', ''book'', ''invite'']
   \<and> sublist ''meeting'' (lower ''Please SHARE the Meeting data file'')
   \<and> ''share'' \<in> set [''share'', ''send'', ''export'', ''forward'', ''upload'']
   \<and> sublist ''share'' (lower ''Please SHARE the Meeting data file'')
   \<and> classify_action ''Please SHARE the Meeting data file'' = SCHEDULE_MEETING
   \<and> classify_action ''recall the data'' = SCHEDULE_MEETING
   \<and> classify_action ''EXPORT the Customer  DATASET internally'' = SHARE_DATA
   \<and> classify_action ''send the report'' = UNKNOWN
   \<and> classify_action ''buy a license for 500'' = SPEND_MONEY
   \<and> classify_action ''that costs $ 5'' = SPEND_MONEY
   \<and> classify_action ''hello'' = UNKNOWN"
proof -
  have h: "''meeting'' \<in> set [''meeting'', ''call'', ''schedule'', ''book'', ''invite'']
   \<and> sublist ''meeting'' (lower ''Please SHARE the Meeting data file'')
   \<and> ''share'' \<in> set [''share'', ''send'', ''export'', ''forward'', ''upload'']
   \<and> sublist ''share'' (lower ''Please SHARE the Meeting data file'')"
    by code_simp
  from classify_action_order[of "''Please SHARE the Meeting data file''"] h
  have c0: "classify_action ''Please SHARE the Meeting data file'' = SCHEDULE_MEETING" by blast
  have e1: "(if \<exists>k\<in>set [''meeting'', ''call'', ''schedule'', ''book'', ''invite'']. sublist k (lower ''recall the data'')
      then SCHEDULE_MEETING
      else if (\<exists>k\<in>set [''share'', ''send'', ''export'', ''forward'', ''upload'']. sublist k (lower ''recall the data''))
              \<and> (\<exists>k\<in>set [''dataset'', ''data'', ''file'', ''files'', ''csv'']. sublist k (lower ''recall the data''))
      then SHARE_DATA
      else if (\<exists>k\<in>set [''buy'', ''purchase'', ''spend'', ''pay'', ''order'']. sublist k (lower ''recall the data''))
              \<or> CHR ''$'' \<in> set ''recall the data''
      then SPEND_MONEY
      else UNKNOWN) = SCHEDULE_MEETING"
    by code_simp
  from classify_action_order[of "''recall the data''"] have c1: "classify_action ''recall the data'' = SCHEDULE_MEETING"
    unfolding e1 by (rule conjunct1)
  have e2: "(if \<exists>k\<in>set [''meeting'', ''call'', ''schedule'', ''book'', ''invite'']. sublist k (lower ''EXPORT the Customer  DATASET internally'')
      then SCHEDULE_MEETING
      else if (\<exists>k\<in>set [''share'', ''send'', ''export'', ''forward'', ''upload'']. sublist k (lower ''EXPORT the Customer  DATASET internally''))
              \<and> (\<exists>k\<in>set [''dataset'', ''data'', ''file'', ''files'', ''csv'']. sublist k (lower ''EXPORT the Customer  DATASET internally''))
      then SHARE_DATA
      else if (\<exists>k\<in>set [''buy'', ''purchase'', ''spend'', ''pay'', ''order'']. sublist k (lower ''EXPORT the Customer  DATASET internally''))
              \<or> CHR ''$'' \<in> set ''EXPORT the Customer  DATASET internally''
      then SPEND_MONEY
      else UNKNOWN) = SHARE_DATA"
    by code_simp
  from classify_action_order[of "''EXPORT the Customer  DATASET internally''"] have c2: "classify_action ''EXPORT the Customer  DATASET internally'' = SHARE_DATA"
    unfolding e2 by (rule conjunct1)
  have e3: "(if \<exists>k\<in>set [''meeting'', ''call'', ''schedule'', ''book'', ''invite'']. sublist k (lower ''send the report'')
      then SCHEDULE_MEETING
      else if (\<exists>k\<in>set [''share'', ''send'', ''export'', ''forward'', ''upload'']. sublist k (lower ''send the report''))
              \<and> (\<exists>k\<in>set [''dataset'', ''data'', ''file'', ''files'', ''csv'']. sublist k (lower ''send the report''))
      then SHARE_DATA
      else if (\<exists>k\<in>set [''buy'', ''purchase'', ''spend'', ''pay'', ''order'']. sublist k (lower ''send the report''))
              \<or> CHR ''$'' \<in> set ''send the report''
      then SPEND_MONEY
      else UNKNOWN) = UNKNOWN"
    by code_simp
  from classify_action_order[of "''send the report''"] have c3: "classify_action ''send the report'' = UNKNOWN"
    unfolding e3 by (rule conjunct1)
  have e4: "(if \<exists>k\<in>set [''meeting'', ''call'', ''schedule'', ''book'', ''invite'']. sublist k (lower ''buy a license for 500'')
      then SCHEDULE_MEETING
      else if (\<exists>k\<in>set [''share'', ''send'', ''export'', ''forward'', ''upload'']. sublist k (lower ''buy a license for 500''))
              \<and> (\<exists>k\<in>set [''dataset'', ''data'', ''file'', ''files'', ''csv'']. sublist k (lower ''buy a license for 500''))
      then SHARE_DATA
      else if (\<exists>k\<in>set [''buy'', ''purchase'', ''spend'', ''pay'', ''order'']. sublist k (lower ''buy a license for 500''))
              \<or> CHR ''$'' \<in> set ''buy a license for 500''
      then SPEND_MONEY
      else UNKNOWN) = SPEND_MONEY"
    by code_simp
  from classify_action_order[of "''buy a license for 500''"] have c4: "classify_action ''buy a license for 500'' = SPEND_MONEY"
    unfolding e4 by (rule conjunct1)
  have e5: "(if \<exists>k\<in>set [''meeting'', ''call'', ''schedule'', ''book'', ''invite'']. sublist k (lower ''that costs $ 5'')
      then SCHEDULE_MEETING
      else if (\<exists>k\<in>set [''share'', ''send'', ''export'', ''forward'', ''upload'']. sublist k (lower ''that costs $ 5''))
              \<and> (\<exists>k\<in>set [''dataset'', ''data'', ''file'', ''files'', ''csv'']. sublist k (lower ''that costs $ 5''))
      then SHARE_DATA
      else if (\<exists>k\<in>set [''buy'', ''purchase'', ''spend'', ''pay'', ''order'']. sublist k (lower ''that costs $ 5''))
              \<or> CHR ''$'' \<in> set ''that costs $ 5''
      then SPEND_MONEY
      else UNKNOWN) = SPEND_MONEY"
    by code_simp
  from classify_action_order[of "''that costs $ 5''"] have c5: "classify_action ''that costs $ 5'' = SPEND_MONEY"
    unfolding e5 by (rule conjunct1)
  have e6: "(if \<exists>k\<in>set [''meeting'', ''call'', ''schedule'', ''book'', ''invite'']. sublist k (lower ''hello'')
      then SCHEDULE_MEETING
      else if (\<exists>k\<in>set [''share'', ''send'', ''export'', ''forward'', ''upload'']. sublist k (lower ''hello''))
              \<and> (\<exists>k\<in>set [''dataset'', ''data'', ''file'', ''files'', ''csv'']. sublist k (lower ''hello''))
      then SHARE_DATA
      else if (\<exists>k\<in>set [''buy'', ''purchase'', ''spend'', ''pay'', ''order'']. sublist k (lower ''hello''))
              \<or> CHR ''$'' \<in> set ''hello''
      then SPEND_MONEY
      else UNKNOWN) = UNKNOWN"
    by code_simp
  from classify_action_order[of "''hello''"] have c6: "classify_action ''hello'' = UNKNOWN"
    unfolding e6 by (rule conjunct1)
  from h c0 c1 c2 c3 c4 c5 c6 show ?thesis by blast
qed

section \<open>Deduplicated alternatives\<close>
lemma dedup_loop_acc:
  "dedup_loop xs uniq seen = uniq @ dedup_first_seen (filter (\<lambda>y. y \<notin> seen) xs)"
proof (induction xs arbitrary: uniq seen)
  case Nil
  show ?case by simp
next
  case (Cons x xs)
  show ?case
  proof (cases "x \<in> seen")
    case True
    then show ?thesis by (simp add: Cons.IH)
  next
    case False
    have "filter (\<lambda>y. y \<noteq> x) (filter (\<lambda>y. y \<notin> seen) xs) = filter (\<lambda>y. y \<notin> insert x seen) xs"
      by (auto intro: filter_cong)
    with False show ?thesis by (simp add: Cons.IH)
  qed
qed

lemma dedup_loop_eq: "dedup_loop xs [] {} = dedup_first_seen xs"
  by (simp add: dedup_loop_acc)

lemma set_dedup_first_seen: "set (dedup_first_seen xs) = set xs"
  by (induction xs rule: dedup_first_seen.induct) auto

lemma distinct_dedup_first_seen: "distinct (dedup_first_seen xs)"
  by (induction xs rule: dedup_first_seen.induct) (auto simp: set_dedup_first_seen)

lemma subseq_dedup_first_seen: "subseq (dedup_first_seen xs) xs"
proof (induction xs rule: dedup_first_seen.induct)
  case 1
  show ?case by simp
next
  case (2 x xs)
  have "subseq (filter (\<lambda>y. y \<noteq> x) xs) xs" by simp
  with 2 have "subseq (dedup_first_seen (filter (\<lambda>y. y \<noteq> x) xs)) xs"
    using subseq_order.trans by blast
  then show ?case by simp
qed

lemma blocked_decision:
  assumes "evaluate_request e uid text cs = (calls, Inr d)" and "\<not> d_ok d"
  shows "\<exists>vs alts. match_step (classify_action text) text (map normalize_constraint cs) = Inr (vs, alts)
           \<and> vs \<noteq> []
           \<and> d_alternatives d = take 5 (dedup_loop alts [] {})"
  using assms
  by (auto simp: evaluate_request_def Let_def split: sum.splits prod.splits if_splits)

text \<open>
  C7. In a blocked Decision the alternatives are the suggestions the MATCH step
  accumulated, deduplicated by equality in first-seen order and cut to five: the list
  has no duplicates, keeps the order of the accumulated list, and is never longer than 5.
\<close>

theorem evaluate_request_alternatives:
  assumes "evaluate_request e uid text cs = (calls, Inr d)" and "\<not> d_ok d"
  shows "\<exists>vs alts. match_step (classify_action text) text (map normalize_constraint cs) = Inr (vs, alts)
           \<and> d_alternatives d = take 5 (dedup_first_seen alts)
           \<and> length (d_alternatives d) \<le> 5
           \<and> distinct (d_alternatives d)
           \<and> subseq (d_alternatives d) alts"
proof -
  from blocked_decision[OF assms] obtain vs alts where
    m: "match_step (classify_action text) text (map normalize_constraint cs) = Inr (vs, alts)"
    and a: "d_alternatives d = take 5 (dedup_loop alts [] {})" by blast
  from a have a': "d_alternatives d = take 5 (dedup_first_seen alts)" by (simp add: dedup_loop_eq)
  have "distinct (d_alternatives d)" unfolding a' by (simp add: distinct_dedup_first_seen)
  moreover have "subseq (take 5 (dedup_first_seen alts)) (dedup_first_seen alts)"
    by (metis append_take_drop_id prefix_def prefix_imp_subseq)
  then have "subseq (d_alternatives d) alts" unfolding a'
    using subseq_dedup_first_seen subseq_order.trans by blast
  moreover have "length (d_alternatives d) \<le> 5" unfolding a' by simp
  ultimately show ?thesis using m a' by blast
qed

theorem evaluate_request_alternatives_witness:
  "\<exists>calls d. evaluate_request ex_env ''u'' ''schedule a call at 10pm''
       [hour_constraint ''c-1'' 1, hour_constraint ''c-2'' 2, hour_constraint ''c-3'' 3,
        hour_constraint ''c-4'' 4] = (calls, Inr d)
     \<and> \<not> d_ok d
     \<and> d_alternatives d =
         [''Schedule it at 1:00 (8pm) instead of after 1:00.'',
          ''Schedule it tomorrow at 8:00pm.'',
          ''If it must be late, ask for an explicit exception/override first.'',
          ''Schedule it at 2:00 (8pm) instead of after 2:00.'',
          ''Schedule it at 3:00 (8pm) instead of after 3:00.'']
     \<and> (\<exists>vs alts. match_step (classify_action ''schedule a call at 10pm'') ''schedule a call at 10pm''
            (map normalize_constraint
               [hour_constraint ''c-1'' 1, hour_constraint ''c-2'' 2, hour_constraint ''c-3'' 3,
                hour_constraint ''c-4'' 4]) = Inr (vs, alts)
          \<and> d_alternatives d = take 5 (dedup_first_seen alts)
          \<and> length (d_alternatives d) \<le> 5)"
proof -
  have "case evaluate_request ex_env ''u'' ''schedule a call at 10pm''
         [hour_constraint ''c-1'' 1, hour_constraint ''c-2'' 2, hour_constraint ''c-3'' 3,
          hour_constraint ''c-4'' 4] of
         (calls, Inr d) \<Rightarrow> \<not> d_ok d \<and> d_alternatives d =
         [''Schedule it at 1:00 (8pm) instead of after 1:00.'',
          ''Schedule it tomorrow at 8:00pm.'',
          ''If it must be late, ask for an explicit exception/override first.'',
          ''Schedule it at 2:00 (8pm) instead of after 2:00.'',
          ''Schedule it at 3:00 (8pm) instead of after 3:00.'']
       | _ \<Rightarrow> False"
    by code_simp
  then obtain calls d where
    ev: "evaluate_request ex_env ''u'' ''schedule a call at 10pm''
         [hour_constraint ''c-1'' 1, hour_constraint ''c-2'' 2, hour_constraint ''c-3'' 3,
          hour_constraint ''c-4'' 4] = (calls, Inr d)"
    and nok: "\<not> d_ok d"
    and alts: "d_alternatives d =
         [''Schedule it at 1:00 (8pm) instead of after 1:00.'',
          ''Schedule it tomorrow at 8:00pm.'',
          ''If it must be late, ask for an explicit exception/override first.'',
          ''Schedule it at 2:00 (8pm) instead of after 2:00.'',
          ''Schedule it at 3:00 (8pm) instead of after 3:00.'']"
    by (auto split: prod.splits sum.splits)
  from evaluate_request_alternatives[OF ev nok] ev nok alts show ?thesis by blast
qed

section \<open>The MATCH step and the run around it\<close>

lemma recorded_violations_map:
  "recorded_violations (map (\<lambda>(cid, reason). RecordViolation aid cid reason) vs @ rest') = vs @ recorded_violations rest'"
  by (induction vs) auto

lemma evaluate_request_of_match:
  assumes "match_step (classify_action text) text (map normalize_constraint cs) = Inr (vs, alts)"
  shows "recorded_violations (fst (evaluate_request e uid text cs)) = vs
         \<and> (\<exists>d. snd (evaluate_request e uid text cs) = Inr d
                \<and> d_ok d = (vs = [])
                \<and> d_action_type d = classify_action text
                \<and> d_alternatives d = (if vs = [] then [] else take 5 (dedup_loop alts [] {})))"
  using assms recorded_violations_map[of "''a-'' @ take 10 (uuid_hex e)" vs "[ExplainViolations uid (''a-'' @ take 10 (uuid_hex e))]"]
  by (simp add: evaluate_request_def Let_def)

lemma run_checks_sharing:
  "run_checks sharing_check ncs a =
     Inr (fst a @ map (\<lambda>c. (nc_id c, sharing_reason))
                    (filter (\<lambda>c. nc_type c = VStr NO_SHARING_WITH_EXTERNALS) ncs),
          snd a @ concat (map (\<lambda>c. alternatives_for_sharing)
                    (filter (\<lambda>c. nc_type c = VStr NO_SHARING_WITH_EXTERNALS) ncs)))"
  by (induction ncs arbitrary: a) (auto simp: sharing_check_def)

lemma run_checks_meeting:
  assumes "\<forall>c\<in>set ncs. nc_type c = VStr NO_MEETINGS_AFTER_HOUR \<longrightarrow> max_hour_of c = Inr (allowed c)"
  shows "run_checks (meeting_check (Some r)) ncs a =
     Inr (fst a @ map (\<lambda>c. (nc_id c, meeting_reason r (allowed c)))
                    (filter (\<lambda>c. nc_type c = VStr NO_MEETINGS_AFTER_HOUR \<and> allowed c < r) ncs),
          snd a @ concat (map (\<lambda>c. alternatives_for_meeting (allowed c))
                    (filter (\<lambda>c. nc_type c = VStr NO_MEETINGS_AFTER_HOUR \<and> allowed c < r) ncs)))"
  using assms by (induction ncs arbitrary: a) (auto simp: meeting_check_def)

lemma run_checks_meeting_none:
  assumes "\<forall>c\<in>set ncs. nc_type c = VStr NO_MEETINGS_AFTER_HOUR \<longrightarrow> max_hour_of c = Inr (allowed c)"
  shows "run_checks (meeting_check None) ncs a = Inr a"
  using assms by (induction ncs arbitrary: a) (auto simp: meeting_check_def)



lemma match_step_sharing:
  "match_step SHARE_DATA text ncs =
     Inr (if mentions_external_party text
          then (map (\<lambda>c. (nc_id c, sharing_reason))
                    (filter (\<lambda>c. nc_type c = VStr NO_SHARING_WITH_EXTERNALS) ncs),
                concat (map (\<lambda>c. alternatives_for_sharing)
                    (filter (\<lambda>c. nc_type c = VStr NO_SHARING_WITH_EXTERNALS) ncs)))
          else ([], []))"
  by (simp add: match_step_def run_checks_sharing)

section \<open>The three rules of the MATCH step\<close>

text \<open>
  C3. For a request classified \<open>SHARE_DATA\<close>, the run records one violation for
  every stored constraint whose type is \<open>NO_SHARING_WITH_EXTERNALS\<close> when the
  normalized request contains one of the five external-party keywords, and none
  otherwise. Only the key \<open>type\<close> of a constraint is read: the \<open>banned_party\<close> it
  stores plays no part. The run returns a Decision, approved exactly when no violation
  was recorded.
\<close>

theorem sharing_violations:
  assumes "classify_action text = SHARE_DATA"
  shows "recorded_violations (fst (evaluate_request e uid text cs)) =
           (if any_in [''contractor'', ''external'', ''third party'', ''3rd party'', ''vendor''] (norm_str text)
            then map (\<lambda>c. (nc_id (normalize_constraint c),
                           ''Request involves external/contractor sharing, which is prohibited''))
                   (filter (\<lambda>c. dict_get c ''type'' VNone = VStr ''NO_SHARING_WITH_EXTERNALS'') cs)
            else [])
         \<and> (\<exists>d. snd (evaluate_request e uid text cs) = Inr d
                \<and> d_ok d = (recorded_violations (fst (evaluate_request e uid text cs)) = []))"
proof -
  let ?vs = "if mentions_external_party text
          then map (\<lambda>c. (nc_id c, sharing_reason))
                    (filter (\<lambda>c. nc_type c = VStr NO_SHARING_WITH_EXTERNALS) (map normalize_constraint cs))
          else []"
  have "\<exists>alts. match_step (classify_action text) text (map normalize_constraint cs) = Inr (?vs, alts)"
    by (simp add: assms match_step_sharing)
  then obtain alts where
    "match_step (classify_action text) text (map normalize_constraint cs) = Inr (?vs, alts)" by blast
  from evaluate_request_of_match[OF this, of e uid]
  have r: "recorded_violations (fst (evaluate_request e uid text cs)) = ?vs"
    and d: "\<exists>d. snd (evaluate_request e uid text cs) = Inr d \<and> d_ok d = (?vs = [])"
    by blast+
  have "?vs = (if any_in [''contractor'', ''external'', ''third party'', ''3rd party'', ''vendor''] (norm_str text)
            then map (\<lambda>c. (nc_id (normalize_constraint c),
                           ''Request involves external/contractor sharing, which is prohibited''))
                   (filter (\<lambda>c. dict_get c ''type'' VNone = VStr ''NO_SHARING_WITH_EXTERNALS'') cs)
            else [])"
    by (simp add: mentions_external_party_def external_words_def sharing_reason_def
        NO_SHARING_WITH_EXTERNALS_def filter_map comp_def normalize_constraint_def)
  with r d show ?thesis by simp
qed

theorem sharing_violations_witness:
  "classify_action ''export the customer dataset to our contractor'' = SHARE_DATA
   \<and> recorded_violations (fst (evaluate_request ex_env ''u'' ''export the customer dataset to our contractor''
        [sharing_constraint ''c-1'' ''vendor'', hour_constraint ''c-2'' 21, sharing_constraint ''c-3'' ''contractor'']))
     = [(VStr ''c-1'', ''Request involves external/contractor sharing, which is prohibited''),
        (VStr ''c-3'', ''Request involves external/contractor sharing, which is prohibited'')]
   \<and> classify_action ''export the customer dataset internally'' = SHARE_DATA
   \<and> recorded_violations (fst (evaluate_request ex_env ''u'' ''export the customer dataset internally''
        [sharing_constraint ''c-1'' ''vendor'', hour_constraint ''c-2'' 21, sharing_constraint ''c-3'' ''contractor'']))
     = []"
proof -
  have c1: "classify_action ''export the customer dataset to our contractor'' = SHARE_DATA"
    by code_simp
  have c2: "classify_action ''export the customer dataset internally'' = SHARE_DATA"
    by code_simp
  have m1: "any_in [''contractor'', ''external'', ''third party'', ''3rd party'', ''vendor'']
              (norm_str ''export the customer dataset to our contractor'')"
    by code_simp
  have m2: "\<not> any_in [''contractor'', ''external'', ''third party'', ''3rd party'', ''vendor'']
              (norm_str ''export the customer dataset internally'')"
    by code_simp
  have f: "map (\<lambda>c. (nc_id (normalize_constraint c),
                           ''Request involves external/contractor sharing, which is prohibited''))
                   (filter (\<lambda>c. dict_get c ''type'' VNone = VStr ''NO_SHARING_WITH_EXTERNALS'')
        [sharing_constraint ''c-1'' ''vendor'', hour_constraint ''c-2'' 21, sharing_constraint ''c-3'' ''contractor''])
     = [(VStr ''c-1'', ''Request involves external/contractor sharing, which is prohibited''),
        (VStr ''c-3'', ''Request involves external/contractor sharing, which is prohibited'')]"
    by code_simp
  from sharing_violations[OF c1, of ex_env "''u''"] sharing_violations[OF c2, of ex_env "''u''"]
    c1 c2 m1 m2 f
  show ?thesis by simp
qed

lemma match_step_meeting:
  assumes "\<forall>c\<in>set ncs. nc_type c = VStr NO_MEETINGS_AFTER_HOUR \<longrightarrow> max_hour_of c = Inr (allowed c)"
  shows "match_step SCHEDULE_MEETING text ncs =
     Inr (case orchestrator_parse_time_to_hour text of
            None \<Rightarrow> ([], [])
          | Some r \<Rightarrow>
             (map (\<lambda>c. (nc_id c, meeting_reason r (allowed c)))
                    (filter (\<lambda>c. nc_type c = VStr NO_MEETINGS_AFTER_HOUR \<and> allowed c < r) ncs),
              concat (map (\<lambda>c. alternatives_for_meeting (allowed c))
                    (filter (\<lambda>c. nc_type c = VStr NO_MEETINGS_AFTER_HOUR \<and> allowed c < r) ncs))))"
  using run_checks_meeting[OF assms, of _ "([], [])"] run_checks_meeting_none[OF assms, of "([], [])"]
  by (simp add: match_step_def split: option.splits)

lemma meeting_rule_general:
  assumes "classify_action text = SCHEDULE_MEETING"
    and "\<forall>c\<in>set cs. dict_get c ''type'' VNone = VStr ''NO_MEETINGS_AFTER_HOUR''
            \<longrightarrow> max_hour_of (normalize_constraint c) = Inr (allowed c)"
  shows "recorded_violations (fst (evaluate_request e uid text cs)) =
           (case orchestrator_parse_time_to_hour text of
              None \<Rightarrow> []
            | Some r \<Rightarrow>
                map (\<lambda>c. (nc_id (normalize_constraint c),
                           ''Requested meeting at '' @ show_int r @ '':00 exceeds allowed end hour ''
                             @ show_int (allowed c) @ '':00''))
                  (filter (\<lambda>c. dict_get c ''type'' VNone = VStr ''NO_MEETINGS_AFTER_HOUR'' \<and> allowed c < r) cs))
         \<and> (\<exists>d. snd (evaluate_request e uid text cs) = Inr d
                \<and> d_ok d = (recorded_violations (fst (evaluate_request e uid text cs)) = []))
         \<and> (\<exists>vs. match_step (classify_action text) text (map normalize_constraint cs) =
                Inr (vs, case orchestrator_parse_time_to_hour text of
                           None \<Rightarrow> []
                         | Some r \<Rightarrow>
                             concat (map (\<lambda>c. alternatives_for_meeting (allowed c))
                               (filter (\<lambda>c. dict_get c ''type'' VNone = VStr ''NO_MEETINGS_AFTER_HOUR''
                                            \<and> allowed c < r) cs))))
         \<and> (\<forall>h. hd (alternatives_for_meeting h) =
                ''Schedule it at '' @ show_int (min h 20) @ '':00 (8pm) instead of after ''
                  @ show_int h @ '':00.'')"
proof -
  let ?ncs = "map normalize_constraint cs"
  let ?al = "\<lambda>nc. projr (max_hour_of nc)"
  have h: "\<forall>c\<in>set ?ncs. nc_type c = VStr NO_MEETINGS_AFTER_HOUR \<longrightarrow> max_hour_of c = Inr (?al c)"
    using assms(2) by (auto simp: normalize_constraint_def NO_MEETINGS_AFTER_HOUR_def)
  have al: "\<And>c. c \<in> set cs \<Longrightarrow> dict_get c ''type'' VNone = VStr ''NO_MEETINGS_AFTER_HOUR''
               \<Longrightarrow> ?al (normalize_constraint c) = allowed c"
    using assms(2) by auto
  have ty: "\<And>c. nc_type (normalize_constraint c) = dict_get c ''type'' VNone"
    by (simp add: normalize_constraint_def)
  have flt: "\<And>r. filter (\<lambda>c. nc_type c = VStr NO_MEETINGS_AFTER_HOUR \<and> ?al c < r) ?ncs
      = map normalize_constraint
          (filter (\<lambda>c. dict_get c ''type'' VNone = VStr ''NO_MEETINGS_AFTER_HOUR'' \<and> allowed c < r) cs)"
    unfolding filter_map comp_def ty NO_MEETINGS_AFTER_HOUR_def
    by (rule arg_cong[where f="map normalize_constraint"], rule filter_cong) (auto simp: al)
  have m: "match_step (classify_action text) text ?ncs =
     Inr (case orchestrator_parse_time_to_hour text of
            None \<Rightarrow> ([], [])
          | Some r \<Rightarrow>
             (map (\<lambda>c. (nc_id (normalize_constraint c), meeting_reason r (allowed c)))
                    (filter (\<lambda>c. dict_get c ''type'' VNone = VStr ''NO_MEETINGS_AFTER_HOUR'' \<and> allowed c < r) cs),
              concat (map (\<lambda>c. alternatives_for_meeting (allowed c))
                    (filter (\<lambda>c. dict_get c ''type'' VNone = VStr ''NO_MEETINGS_AFTER_HOUR'' \<and> allowed c < r) cs))))"
    unfolding assms(1) match_step_meeting[OF h] flt
    by (auto split: option.splits simp: comp_def al intro!: arg_cong[where f=concat])
  show ?thesis
  proof (cases "orchestrator_parse_time_to_hour text")
    case None
    with m have "match_step (classify_action text) text ?ncs = Inr ([], [])" by simp
    from evaluate_request_of_match[OF this, of e uid] this None show ?thesis
      by (auto simp: alternatives_for_meeting_def Let_def)
  next
    case (Some r)
    with m have mm: "match_step (classify_action text) text ?ncs =
     Inr (map (\<lambda>c. (nc_id (normalize_constraint c), meeting_reason r (allowed c)))
                    (filter (\<lambda>c. dict_get c ''type'' VNone = VStr ''NO_MEETINGS_AFTER_HOUR'' \<and> allowed c < r) cs),
              concat (map (\<lambda>c. alternatives_for_meeting (allowed c))
                    (filter (\<lambda>c. dict_get c ''type'' VNone = VStr ''NO_MEETINGS_AFTER_HOUR'' \<and> allowed c < r) cs)))"
      by simp
    from evaluate_request_of_match[OF mm, of e uid] mm Some show ?thesis
      by (auto simp: alternatives_for_meeting_def Let_def meeting_reason_def)
  qed
qed

text \<open>The allowed hour of a constraint that stores an integer under \<open>hour\<close> in its
  \<open>params\<close> is that integer.\<close>

lemma stored_hour:
  assumes "map_of c ''params'' = Some (VDict ps)" "map_of ps ''hour'' = Some (VInt h)"
  shows "max_hour_of (normalize_constraint c) = Inr h"
proof -
  from assms(2) have "ps \<noteq> []" by auto
  with assms show ?thesis
    by (simp add: max_hour_of_def normalize_constraint_def dict_get_def py_or_def)
qed

text \<open>
  C1. For a request classified \<open>SCHEDULE_MEETING\<close>, with every constraint of type
  \<open>NO_MEETINGS_AFTER_HOUR\<close> storing an integer \<open>h\<close> under the key \<open>hour\<close> of its
  \<open>params\<close>: the run records a violation for such a constraint exactly when the hour
  extractor of the evaluator finds an hour \<open>r\<close> in the request and \<open>r\<close> is greater
  than the stored \<open>h\<close>. The reason names both hours, and the suggestions appended for
  it start with the one for the hour \<open>min h 20\<close>. The run returns a Decision, approved
  exactly when no violation was recorded.
\<close>

theorem meeting_violations:
  assumes "classify_action text = SCHEDULE_MEETING"
    and "\<forall>c\<in>set cs. dict_get c ''type'' VNone = VStr ''NO_MEETINGS_AFTER_HOUR''
            \<longrightarrow> (\<exists>ps. map_of c ''params'' = Some (VDict ps)
                      \<and> map_of ps ''hour'' = Some (VInt (allowed c)))"
  shows "recorded_violations (fst (evaluate_request e uid text cs)) =
           (case orchestrator_parse_time_to_hour text of
              None \<Rightarrow> []
            | Some r \<Rightarrow>
                map (\<lambda>c. (nc_id (normalize_constraint c),
                           ''Requested meeting at '' @ show_int r @ '':00 exceeds allowed end hour ''
                             @ show_int (allowed c) @ '':00''))
                  (filter (\<lambda>c. dict_get c ''type'' VNone = VStr ''NO_MEETINGS_AFTER_HOUR'' \<and> allowed c < r) cs))
         \<and> (\<exists>d. snd (evaluate_request e uid text cs) = Inr d
                \<and> d_ok d = (recorded_violations (fst (evaluate_request e uid text cs)) = []))
         \<and> (\<exists>vs. match_step (classify_action text) text (map normalize_constraint cs) =
                Inr (vs, case orchestrator_parse_time_to_hour text of
                           None \<Rightarrow> []
                         | Some r \<Rightarrow>
                             concat (map (\<lambda>c. alternatives_for_meeting (allowed c))
                               (filter (\<lambda>c. dict_get c ''type'' VNone = VStr ''NO_MEETINGS_AFTER_HOUR''
                                            \<and> allowed c < r) cs))))
         \<and> (\<forall>h. hd (alternatives_for_meeting h) =
                ''Schedule it at '' @ show_int (min h 20) @ '':00 (8pm) instead of after ''
                  @ show_int h @ '':00.'')"
proof -
  from assms(2) have "\<forall>c\<in>set cs. dict_get c ''type'' VNone = VStr ''NO_MEETINGS_AFTER_HOUR''
            \<longrightarrow> max_hour_of (normalize_constraint c) = Inr (allowed c)"
    using stored_hour by blast
  from meeting_rule_general[OF assms(1) this] show ?thesis .
qed

theorem meeting_violations_witness:
  "classify_action ''schedule a call at 10pm'' = SCHEDULE_MEETING
   \<and> orchestrator_parse_time_to_hour ''schedule a call at 10pm'' = Some 22
   \<and> classify_action ''schedule a call at 8pm'' = SCHEDULE_MEETING
   \<and> orchestrator_parse_time_to_hour ''schedule a call at 8pm'' = Some 20
   \<and> recorded_violations (fst (evaluate_request ex_env ''u'' ''schedule a call at 10pm''
        [hour_constraint ''c-1'' 21]))
       = [(VStr ''c-1'', ''Requested meeting at 22:00 exceeds allowed end hour 21:00'')]
   \<and> (\<exists>d. snd (evaluate_request ex_env ''u'' ''schedule a call at 10pm''
        [hour_constraint ''c-1'' 21]) = Inr d \<and> \<not> d_ok d)
   \<and> recorded_violations (fst (evaluate_request ex_env ''u'' ''schedule a call at 8pm''
        [hour_constraint ''c-1'' 21]))
       = []
   \<and> (\<exists>d. snd (evaluate_request ex_env ''u'' ''schedule a call at 8pm''
        [hour_constraint ''c-1'' 21]) = Inr d \<and> d_ok d)
   \<and> recorded_violations (fst (evaluate_request ex_env ''u'' ''schedule a call at 10pm''
        [hour_constraint ''c-1'' 23, hour_constraint ''c-2'' 18, sharing_constraint ''c-3'' ''contractor'', hour_constraint ''c-4'' 21]))
       = [(VStr ''c-2'', ''Requested meeting at 22:00 exceeds allowed end hour 18:00''), (VStr ''c-4'', ''Requested meeting at 22:00 exceeds allowed end hour 21:00'')]
   \<and> (\<exists>d. snd (evaluate_request ex_env ''u'' ''schedule a call at 10pm''
        [hour_constraint ''c-1'' 23, hour_constraint ''c-2'' 18, sharing_constraint ''c-3'' ''contractor'', hour_constraint ''c-4'' 21]) = Inr d \<and> \<not> d_ok d)
   \<and> recorded_violations (fst (evaluate_request ex_env ''u'' ''schedule a call at 10pm''
        [hour_constraint ''c-1'' 23]))
       = []
   \<and> (\<exists>d. snd (evaluate_request ex_env ''u'' ''schedule a call at 10pm''
        [hour_constraint ''c-1'' 23]) = Inr d \<and> d_ok d)
   \<and> hd (alternatives_for_meeting 21) = ''Schedule it at 20:00 (8pm) instead of after 21:00.''
   \<and> hd (alternatives_for_meeting 18) = ''Schedule it at 18:00 (8pm) instead of after 18:00.''"
proof -
  let ?al = "(\<lambda>c. case map_of c ''params'' of
                   Some (VDict ps) \<Rightarrow> (case map_of ps ''hour'' of Some (VInt h) \<Rightarrow> h | _ \<Rightarrow> 0)
                 | _ \<Rightarrow> 0)"
  have c1: "classify_action ''schedule a call at 10pm'' = SCHEDULE_MEETING" by code_simp
  have c2: "classify_action ''schedule a call at 8pm'' = SCHEDULE_MEETING" by code_simp
  have p1: "orchestrator_parse_time_to_hour ''schedule a call at 10pm'' = Some 22" by code_simp
  have p2: "orchestrator_parse_time_to_hour ''schedule a call at 8pm'' = Some 20" by code_simp
  have h1: "\<forall>c\<in>set [hour_constraint ''c-1'' 21].
             dict_get c ''type'' VNone = VStr ''NO_MEETINGS_AFTER_HOUR''
               \<longrightarrow> (\<exists>ps. map_of c ''params'' = Some (VDict ps)
                      \<and> map_of ps ''hour'' = Some (VInt (?al c)))"
    by (simp add: hour_constraint_def sharing_constraint_def dict_get_def)
  have h2: "\<forall>c\<in>set [hour_constraint ''c-1'' 23, hour_constraint ''c-2'' 18, sharing_constraint ''c-3'' ''contractor'', hour_constraint ''c-4'' 21].
             dict_get c ''type'' VNone = VStr ''NO_MEETINGS_AFTER_HOUR''
               \<longrightarrow> (\<exists>ps. map_of c ''params'' = Some (VDict ps)
                      \<and> map_of ps ''hour'' = Some (VInt (?al c)))"
    by (simp add: hour_constraint_def sharing_constraint_def dict_get_def)
  have h3: "\<forall>c\<in>set [hour_constraint ''c-1'' 23].
             dict_get c ''type'' VNone = VStr ''NO_MEETINGS_AFTER_HOUR''
               \<longrightarrow> (\<exists>ps. map_of c ''params'' = Some (VDict ps)
                      \<and> map_of ps ''hour'' = Some (VInt (?al c)))"
    by (simp add: hour_constraint_def sharing_constraint_def dict_get_def)
  have f1: "map (\<lambda>c. (nc_id (normalize_constraint c),
                           ''Requested meeting at '' @ show_int 22 @ '':00 exceeds allowed end hour ''
                             @ show_int (?al c) @ '':00''))
                  (filter (\<lambda>c. dict_get c ''type'' VNone = VStr ''NO_MEETINGS_AFTER_HOUR'' \<and> ?al c < 22)
                     [hour_constraint ''c-1'' 21])
            = [(VStr ''c-1'', ''Requested meeting at 22:00 exceeds allowed end hour 21:00'')]"
    by code_simp
  note t1 = meeting_violations[OF c1 h1, of ex_env "''u''", unfolded p1 option.case f1]
  from t1 have r1: "recorded_violations (fst (evaluate_request ex_env ''u'' ''schedule a call at 10pm''
        [hour_constraint ''c-1'' 21]))
       = [(VStr ''c-1'', ''Requested meeting at 22:00 exceeds allowed end hour 21:00'')]"
    by (rule conjunct1)
  from t1 r1 have d1: "(\<exists>d. snd (evaluate_request ex_env ''u'' ''schedule a call at 10pm''
        [hour_constraint ''c-1'' 21]) = Inr d \<and> \<not> d_ok d)"
    by auto
  have f2: "map (\<lambda>c. (nc_id (normalize_constraint c),
                           ''Requested meeting at '' @ show_int 20 @ '':00 exceeds allowed end hour ''
                             @ show_int (?al c) @ '':00''))
                  (filter (\<lambda>c. dict_get c ''type'' VNone = VStr ''NO_MEETINGS_AFTER_HOUR'' \<and> ?al c < 20)
                     [hour_constraint ''c-1'' 21])
            = []"
    by code_simp
  note t2 = meeting_violations[OF c2 h1, of ex_env "''u''", unfolded p2 option.case f2]
  from t2 have r2: "recorded_violations (fst (evaluate_request ex_env ''u'' ''schedule a call at 8pm''
        [hour_constraint ''c-1'' 21]))
       = []"
    by (rule conjunct1)
  from t2 r2 have d2: "(\<exists>d. snd (evaluate_request ex_env ''u'' ''schedule a call at 8pm''
        [hour_constraint ''c-1'' 21]) = Inr d \<and> d_ok d)"
    by auto
  have f3: "map (\<lambda>c. (nc_id (normalize_constraint c),
                           ''Requested meeting at '' @ show_int 22 @ '':00 exceeds allowed end hour ''
                             @ show_int (?al c) @ '':00''))
                  (filter (\<lambda>c. dict_get c ''type'' VNone = VStr ''NO_MEETINGS_AFTER_HOUR'' \<and> ?al c < 22)
                     [hour_constraint ''c-1'' 23, hour_constraint ''c-2'' 18, sharing_constraint ''c-3'' ''contractor'', hour_constraint ''c-4'' 21])
            = [(VStr ''c-2'', ''Requested meeting at 22:00 exceeds allowed end hour 18:00''), (VStr ''c-4'', ''Requested meeting at 22:00 exceeds allowed end hour 21:00'')]"
    by code_simp
  note t3 = meeting_violations[OF c1 h2, of ex_env "''u''", unfolded p1 option.case f3]
  from t3 have r3: "recorded_violations (fst (evaluate_request ex_env ''u'' ''schedule a call at 10pm''
        [hour_constraint ''c-1'' 23, hour_constraint ''c-2'' 18, sharing_constraint ''c-3'' ''contractor'', hour_constraint ''c-4'' 21]))
       = [(VStr ''c-2'', ''Requested meeting at 22:00 exceeds allowed end hour 18:00''), (VStr ''c-4'', ''Requested meeting at 22:00 exceeds allowed end hour 21:00'')]"
    by (rule conjunct1)
  from t3 r3 have d3: "(\<exists>d. snd (evaluate_request ex_env ''u'' ''schedule a call at 10pm''
        [hour_constraint ''c-1'' 23, hour_constraint ''c-2'' 18, sharing_constraint ''c-3'' ''contractor'', hour_constraint ''c-4'' 21]) = Inr d \<and> \<not> d_ok d)"
    by auto
  have f4: "map (\<lambda>c. (nc_id (normalize_constraint c),
                           ''Requested meeting at '' @ show_int 22 @ '':00 exceeds allowed end hour ''
                             @ show_int (?al c) @ '':00''))
                  (filter (\<lambda>c. dict_get c ''type'' VNone = VStr ''NO_MEETINGS_AFTER_HOUR'' \<and> ?al c < 22)
                     [hour_constraint ''c-1'' 23])
            = []"
    by code_simp
  note t4 = meeting_violations[OF c1 h3, of ex_env "''u''", unfolded p1 option.case f4]
  from t4 have r4: "recorded_violations (fst (evaluate_request ex_env ''u'' ''schedule a call at 10pm''
        [hour_constraint ''c-1'' 23]))
       = []"
    by (rule conjunct1)
  from t4 r4 have d4: "(\<exists>d. snd (evaluate_request ex_env ''u'' ''schedule a call at 10pm''
        [hour_constraint ''c-1'' 23]) = Inr d \<and> d_ok d)"
    by auto
  have a21: "''Schedule it at '' @ show_int (min 21 20) @ '':00 (8pm) instead of after ''
                  @ show_int 21 @ '':00.'' = ''Schedule it at 20:00 (8pm) instead of after 21:00.''"
    by code_simp
  from t1 have "hd (alternatives_for_meeting 21) = ''Schedule it at '' @ show_int (min 21 20) @ '':00 (8pm) instead of after ''
                  @ show_int 21 @ '':00.''" by blast
  with a21 have b21: "hd (alternatives_for_meeting 21) = ''Schedule it at 20:00 (8pm) instead of after 21:00.''"
    by simp
  have a18: "''Schedule it at '' @ show_int (min 18 20) @ '':00 (8pm) instead of after ''
                  @ show_int 18 @ '':00.'' = ''Schedule it at 18:00 (8pm) instead of after 18:00.''"
    by code_simp
  from t1 have "hd (alternatives_for_meeting 18) = ''Schedule it at '' @ show_int (min 18 20) @ '':00 (8pm) instead of after ''
                  @ show_int 18 @ '':00.''" by blast
  with a18 have b18: "hd (alternatives_for_meeting 18) = ''Schedule it at 18:00 (8pm) instead of after 18:00.''"
    by simp
  from c1 p1 c2 p2 r1 d1 r2 d2 r3 d3 r4 d4 b21 b18 show ?thesis by blast
qed



text \<open>Evaluating the float operations on numerals.\<close>

lemmas float_eval = float_of_decimal_def rat_of_decimal_def int_of_digits_def code_def to_double_def
  round_pos_def ilog2_def pow2_def round_half_even_def Let_def









lemmas constraint_eval = budget_constraint_def hour_constraint_def sharing_constraint_def
  bare_constraint_def normalize_constraint_def dict_get_def py_or_def cap_of_def max_hour_of_def


section \<open>Defaults for missing parameters\<close>

text \<open>
  C10. A missing parameter is replaced by a default and raises nothing. A constraint
  whose \<open>params\<close> have no key \<open>hour\<close> has the allowed hour 21, so as a
  \<open>NO_MEETINGS_AFTER_HOUR\<close> constraint it is violated by every requested hour above
  21. A constraint whose \<open>params\<close> have no key \<open>max_amount\<close> has the cap 0 and,
  since only caps above 0 are enforced, adds no violation for any amount. Stored
  \<open>params\<close> that are missing, \<open>None\<close> or empty are read as the empty dict.
\<close>

theorem missing_param_defaults:
  "(nc_params c = VDict ps \<and> map_of ps ''hour'' = None \<longrightarrow>
      max_hour_of c = Inr 21
      \<and> (nc_type c = VStr ''NO_MEETINGS_AFTER_HOUR'' \<longrightarrow>
           meeting_check (Some r) c =
             Inr (if 21 < r then ([(nc_id c, meeting_reason r 21)], alternatives_for_meeting 21)
                  else ([], []))))
   \<and> (nc_params c = VDict ps \<and> map_of ps ''max_amount'' = None \<longrightarrow>
      cap_of c = Inr (Fin 0) \<and> budget_check amt c = Inr ([], []))
   \<and> (\<not> truthy (dict_get d ''params'' (VDict [])) \<longrightarrow>
      nc_params (normalize_constraint d) = VDict [])"
  by (auto simp: max_hour_of_def cap_of_def dict_get_def meeting_check_def budget_check_def
      NO_MEETINGS_AFTER_HOUR_def to_double_def normalize_constraint_def py_or_def
      split: option.splits)

theorem missing_param_defaults_witness:
  "recorded_violations (fst (evaluate_request ex_env ''u'' ''schedule a call at 10pm''
        [bare_constraint ''c-1'' ''NO_MEETINGS_AFTER_HOUR'']))
       = [(VStr ''c-1'', ''Requested meeting at 22:00 exceeds allowed end hour 21:00'')]
   \<and> classify_action ''buy a license for $1500'' = SPEND_MONEY
   \<and> recorded_violations (fst (evaluate_request ex_env ''u'' ''buy a license for $1500''
        [bare_constraint ''c-2'' ''BUDGET_CAP''])) = []
   \<and> (\<exists>d. snd (evaluate_request ex_env ''u'' ''buy a license for $1500''
        [bare_constraint ''c-2'' ''BUDGET_CAP'']) = Inr d \<and> d_ok d)"
proof -
  let ?m = "normalize_constraint (bare_constraint ''c-1'' ''NO_MEETINGS_AFTER_HOUR'')"
  let ?b = "normalize_constraint (bare_constraint ''c-2'' ''BUDGET_CAP'')"
  have pm: "nc_params ?m = VDict [] \<and> map_of ([] :: (string \<times> pyval) list) ''hour'' = None"
    and tm: "nc_type ?m = VStr ''NO_MEETINGS_AFTER_HOUR''"
    and im: "nc_id ?m = VStr ''c-1''"
    by (simp_all add: constraint_eval)
  have pb: "nc_params ?b = VDict [] \<and> map_of ([] :: (string \<times> pyval) list) ''max_amount'' = None"
    and tb: "nc_type ?b = VStr BUDGET_CAP"
    by (simp_all add: constraint_eval BUDGET_CAP_def)
  have c1: "classify_action ''schedule a call at 10pm'' = SCHEDULE_MEETING" by code_simp
  have c2: "classify_action ''buy a license for $1500'' = SPEND_MONEY" by code_simp
  have p1: "orchestrator_parse_time_to_hour ''schedule a call at 10pm'' = Some 22" by code_simp
  have s: "meeting_reason 22 21 = ''Requested meeting at 22:00 exceeds allowed end hour 21:00''"
    by code_simp
  from missing_param_defaults[of ?m "[]" 22] pm tm im s
  have mc: "meeting_check (Some 22) ?m =
      Inr ([(VStr ''c-1'', ''Requested meeting at 22:00 exceeds allowed end hour 21:00'')],
           alternatives_for_meeting 21)"
    by simp
  from missing_param_defaults[of ?b "[]"] pb
  have bc: "\<And>amt. budget_check amt ?b = Inr ([], [])"
    by blast
  have m1: "match_step (classify_action ''schedule a call at 10pm'') ''schedule a call at 10pm''
             (map normalize_constraint [bare_constraint ''c-1'' ''NO_MEETINGS_AFTER_HOUR'']) =
      Inr ([(VStr ''c-1'', ''Requested meeting at 22:00 exceeds allowed end hour 21:00'')],
           alternatives_for_meeting 21)"
    by (simp add: c1 match_step_def p1 mc)
  have m2: "match_step (classify_action ''buy a license for $1500'') ''buy a license for $1500''
             (map normalize_constraint [bare_constraint ''c-2'' ''BUDGET_CAP'']) = Inr ([], [])"
    by (simp add: c2 match_step_def bc)
  from evaluate_request_of_match[OF m1, of ex_env "''u''"]
       evaluate_request_of_match[OF m2, of ex_env "''u''"] c2
  show ?thesis by auto
qed

section \<open>Determinism\<close>

text \<open>
  C8. Two runs on the same user, request and constraint list, to which the graph store
  gives the same explanation rows, return the same outcome apart from the action id
  (the same exception, or Decisions with the same ok flag, action type, message,
  violations and ordered alternatives) and record the same violations, whatever the
  generated identifiers and the clock are.
\<close>

theorem evaluate_request_deterministic:
  assumes "explain_rows e1 = explain_rows e2"
  shows "outcome_view (snd (evaluate_request e1 uid text cs))
           = outcome_view (snd (evaluate_request e2 uid text cs))
         \<and> recorded_violations (fst (evaluate_request e1 uid text cs))
           = recorded_violations (fst (evaluate_request e2 uid text cs))"
proof (cases "match_step (classify_action text) text (map normalize_constraint cs)")
  case (Inl err)
  then show ?thesis
    by (simp add: evaluate_request_def Let_def outcome_view_def)
next
  case (Inr a)
  obtain vs alts where a: "a = (vs, alts)" by (cases a)
  from Inr a assms
  have "outcome_view (snd (evaluate_request e1 uid text cs))
           = outcome_view (snd (evaluate_request e2 uid text cs))"
    by (simp add: evaluate_request_def Let_def outcome_view_def)
  moreover from Inr a evaluate_request_of_match[of "text" cs vs alts]
  have "recorded_violations (fst (evaluate_request e1 uid text cs))
           = recorded_violations (fst (evaluate_request e2 uid text cs))"
    by simp
  ultimately show ?thesis by simp
qed

theorem evaluate_request_deterministic_witness:
  "explain_rows ex_env = explain_rows ex_env2
   \<and> uuid_hex ex_env \<noteq> uuid_hex ex_env2
   \<and> outcome_view (snd (evaluate_request ex_env ''u'' ''schedule a call at 10pm'' [hour_constraint ''c-1'' 21]))
       = outcome_view (snd (evaluate_request ex_env2 ''u'' ''schedule a call at 10pm'' [hour_constraint ''c-1'' 21]))
   \<and> recorded_violations (fst (evaluate_request ex_env ''u'' ''schedule a call at 10pm'' [hour_constraint ''c-1'' 21]))
       = recorded_violations (fst (evaluate_request ex_env2 ''u'' ''schedule a call at 10pm'' [hour_constraint ''c-1'' 21]))
   \<and> map_sum id d_action_id (snd (evaluate_request ex_env ''u'' ''schedule a call at 10pm'' [hour_constraint ''c-1'' 21]))
       \<noteq> map_sum id d_action_id (snd (evaluate_request ex_env2 ''u'' ''schedule a call at 10pm'' [hour_constraint ''c-1'' 21]))
   \<and> map_sum id d_ok (snd (evaluate_request ex_env ''u'' ''schedule a call at 10pm'' [hour_constraint ''c-1'' 21]))
       = Inr False"
proof -
  have h: "explain_rows ex_env = explain_rows ex_env2" by (simp add: ex_env_def ex_env2_def)
  have u: "uuid_hex ex_env \<noteq> uuid_hex ex_env2" by (simp add: ex_env_def ex_env2_def)
  have i: "map_sum id d_action_id (snd (evaluate_request ex_env ''u'' ''schedule a call at 10pm'' [hour_constraint ''c-1'' 21]))
       \<noteq> map_sum id d_action_id (snd (evaluate_request ex_env2 ''u'' ''schedule a call at 10pm'' [hour_constraint ''c-1'' 21]))"
    by code_simp
  have k: "map_sum id d_ok (snd (evaluate_request ex_env ''u'' ''schedule a call at 10pm'' [hour_constraint ''c-1'' 21]))
       = Inr False"
    by code_simp
  from evaluate_request_deterministic[OF h, of "''u''" "''schedule a call at 10pm''" "[hour_constraint ''c-1'' 21]"]
    h u i k show ?thesis by blast
qed

section \<open>Properties of the matcher and of the hour extractors\<close>

lemma consume_groups: "groups (consume k s) = groups s"
  by (simp add: consume_def)

lemma rmatch_keeps_groups:
  "s' \<in> set (rmatch r s) \<Longrightarrow> map_of (groups s) i = Some g \<Longrightarrow> \<exists>g'. map_of (groups s') i = Some g'"
proof (induction r arbitrary: s s' g)
  case Eps
  then show ?case by simp
next
  case (One cls)
  then show ?case by (auto split: list.splits if_splits)
next
  case (Rep cls lo hi)
  then show ?case by (auto simp: consume_groups)
next
  case (Seq a b)
  from Seq.prems(1) obtain s1 where s1: "s1 \<in> set (rmatch a s)" and s': "s' \<in> set (rmatch b s1)"
    by auto
  from Seq.IH(1)[OF s1 Seq.prems(2)] obtain g1 where "map_of (groups s1) i = Some g1" by blast
  from Seq.IH(2)[OF s' this] show ?case .
next
  case (Alt a b)
  from Alt.prems(1) consider "s' \<in> set (rmatch a s)" | "s' \<in> set (rmatch b s)" by auto
  then show ?case using Alt.IH Alt.prems(2) by cases blast+
next
  case (Opt a)
  from Opt.prems(1) consider "s' \<in> set (rmatch a s)" | "s' = s" by auto
  then show ?case using Opt.IH Opt.prems(2) by cases blast+
next
  case (Grp j a)
  from Grp.prems(1) obtain s1 x where s1: "s1 \<in> set (rmatch a s)"
    and s': "groups s' = (j, x) # groups s1" by auto
  from Grp.IH[OF s1 Grp.prems(2)] obtain g1 where "map_of (groups s1) i = Some g1" by blast
  with s' show ?case by simp
next
  case WordB
  then show ?case by (auto split: if_splits)
qed

lemma rmatch_binds:
  "binds i r \<Longrightarrow> s' \<in> set (rmatch r s) \<Longrightarrow> \<exists>g. map_of (groups s') i = Some g"
proof (induction r arbitrary: s s')
  case (Seq a b)
  from Seq.prems(2) obtain s1 where s1: "s1 \<in> set (rmatch a s)" and s': "s' \<in> set (rmatch b s1)"
    by auto
  from Seq.prems(1) consider "binds i a" | "binds i b" by auto
  then show ?case
  proof cases
    case 1
    from Seq.IH(1)[OF 1 s1] obtain g1 where "map_of (groups s1) i = Some g1" by blast
    from rmatch_keeps_groups[OF s' this] show ?thesis .
  next
    case 2
    from Seq.IH(2)[OF 2 s'] show ?thesis .
  qed
next
  case (Alt a b)
  from Alt.prems(2) consider "s' \<in> set (rmatch a s)" | "s' \<in> set (rmatch b s)" by auto
  then show ?case using Alt.IH Alt.prems(1) by cases auto
next
  case (Grp j a)
  from Grp.prems(2) obtain s1 x where s1: "s1 \<in> set (rmatch a s)"
    and s': "groups s' = (j, x) # groups s1" by auto
  show ?case
  proof (cases "i = j")
    case True
    with s' show ?thesis by simp
  next
    case False
    with Grp.prems(1) have "binds i a" by simp
    from Grp.IH[OF this s1] obtain g1 where "map_of (groups s1) i = Some g1" by blast
    with s' False show ?thesis by simp
  qed
qed simp_all

lemma rsearch_from_mem:
  "rsearch_from r p t = Some m \<Longrightarrow> \<exists>s. m \<in> set (rmatch r s)"
proof (induction t arbitrary: p)
  case Nil
  then have "m \<in> set (rmatch r \<lparr>prev = p, rest = [], groups = []\<rparr>)"
    by (auto split: list.splits)
  then show ?case by blast
next
  case (Cons c cs)
  show ?case
  proof (cases "rmatch r \<lparr>prev = p, rest = c # cs, groups = []\<rparr>")
    case Nil
    with Cons.prems have "rsearch_from r (Some c) cs = Some m" by simp
    from Cons.IH[OF this] show ?thesis .
  next
    case (Cons m' ms)
    with Cons.prems have "m = m'" by simp
    with Cons have "m \<in> set (rmatch r \<lparr>prev = p, rest = c # cs, groups = []\<rparr>)" by simp
    then show ?thesis by blast
  qed
qed

text \<open>A group that the pattern always binds is bound in the match \<open>rsearch\<close> returns.\<close>

lemma rsearch_binds:
  assumes "rsearch r t = Some m" "binds i r"
  shows "map_of (groups m) i = Some (match_group m i)"
proof -
  from assms(1) have "rsearch_from r None t = Some m" by (simp add: rsearch_def)
  from rsearch_from_mem[OF this] obtain s where "m \<in> set (rmatch r s)" by blast
  from rmatch_binds[OF assms(2) this] obtain g where "map_of (groups m) i = Some g" by blast
  then show ?thesis by (simp add: match_group_def)
qed

lemma patterns_bind:
  "binds 1 rx_orch_ampm" "binds 3 rx_orch_ampm" "binds 1 rx_orch_24"
  "binds 1 rx_policy_ampm" "binds 2 rx_policy_ampm" "binds 1 rx_policy_24"
  "binds 1 rx_dollar" "binds 1 rx_labeled"
  by (simp_all add: rx_orch_ampm_def rx_orch_24_def rx_policy_ampm_def rx_policy_24_def
      rx_dollar_def rx_labeled_def rx_number_def seq_def)

lemma in_day_range: "in_day h = Some x \<Longrightarrow> 0 \<le> x \<and> x \<le> 23"
  by (auto simp: in_day_def split: if_splits)

lemma policy_hour_range: "policy_parse_time_to_hour t = Some h \<Longrightarrow> 0 \<le> h \<and> h \<le> 23"
  by (auto simp: policy_parse_time_to_hour_def Let_def split: option.splits dest: in_day_range)

lemma orchestrator_hour_range: "orchestrator_parse_time_to_hour t = Some h \<Longrightarrow> 0 \<le> h \<and> h \<le> 23"
  by (auto simp: orchestrator_parse_time_to_hour_def Let_def split: option.splits dest: in_day_range)

lemma to_24h_pm: "to_24h h ''pm'' = (if h = 12 then 12 else h + 12)"
  by (simp add: to_24h_def)

lemma to_24h_am: "to_24h h ''am'' = (if h = 12 then 0 else h)"
  by (simp add: to_24h_def)

lemma policy_meridiem_first:
  assumes "rsearch rx_policy_ampm (norm_str t) = Some m"
    and "in_day (to_24h (int_of_digits (match_group m 1)) (match_group m 2)) = Some h"
  shows "policy_parse_time_to_hour t = Some h"
  using assms by (simp add: policy_parse_time_to_hour_def Let_def)

lemma policy_pm_hours:
  "list_all (\<lambda>H. policy_parse_time_to_hour (''after '' @ show_int H @ ''pm'')
                   = (if H = 12 then Some 12 else in_day (H + 12)))
     [0, 1, 2, 3, 4, 5, 6, 7, 8, 9, 10, 11, 12, 13, 14, 15, 16, 17, 18, 19, 20, 21, 22, 23]"
  by code_simp

lemma policy_am_hours:
  "list_all (\<lambda>H. policy_parse_time_to_hour (''after '' @ show_int H @ ''am'')
                   = (if H = 12 then Some 0 else in_day H))
     [0, 1, 2, 3, 4, 5, 6, 7, 8, 9, 10, 11, 12, 13, 14, 15, 16, 17, 18, 19, 20, 21, 22, 23]"
  by code_simp

text \<open>
  C9. In constraint parsing the pattern with the meridiem marker is tried first, and its
  hour is converted: \<open>after Hpm\<close> gives \<open>H + 12\<close> unless \<open>H\<close> is 12,
  \<open>after 12pm\<close> gives 12 and \<open>after 12am\<close> gives 0. Whenever that pattern matches
  and the converted hour lies in 0..23, this hour is the result, whatever bare time the
  text also holds. An hour outside 0..23 is never returned: \<open>after 13pm\<close> gives
  nothing.
\<close>

theorem policy_hour_conversion:
  "(\<forall>H\<in>set [0, 1, 2, 3, 4, 5, 6, 7, 8, 9, 10, 11, 12, 13, 14, 15, 16, 17, 18, 19, 20, 21, 22, 23].
      policy_parse_time_to_hour (''after '' @ show_int H @ ''pm'')
        = (if H = 12 then Some 12 else if H + 12 \<le> 23 then Some (H + 12) else None)
      \<and> policy_parse_time_to_hour (''after '' @ show_int H @ ''am'')
        = (if H = 12 then Some 0 else Some H))
   \<and> (\<forall>h. to_24h h ''pm'' = (if h = 12 then 12 else h + 12)
          \<and> to_24h h ''am'' = (if h = 12 then 0 else h))
   \<and> (\<forall>t m h. rsearch rx_policy_ampm (norm_str t) = Some m
          \<and> in_day (to_24h (int_of_digits (match_group m 1)) (match_group m 2)) = Some h
        \<longrightarrow> policy_parse_time_to_hour t = Some h)
   \<and> (\<forall>t h. policy_parse_time_to_hour t = Some h \<longrightarrow> 0 \<le> h \<and> h \<le> 23)"
proof (intro conjI ballI allI impI)
  fix H :: int
  assume H: "H \<in> set [0, 1, 2, 3, 4, 5, 6, 7, 8, 9, 10, 11, 12, 13, 14, 15, 16, 17, 18, 19, 20, 21, 22, 23]"
  then have r: "0 \<le> H \<and> H \<le> 23" by auto
  from policy_pm_hours H
  have "policy_parse_time_to_hour (''after '' @ show_int H @ ''pm'')
          = (if H = 12 then Some 12 else in_day (H + 12))"
    unfolding list_all_iff by blast
  with r show "policy_parse_time_to_hour (''after '' @ show_int H @ ''pm'')
        = (if H = 12 then Some 12 else if H + 12 \<le> 23 then Some (H + 12) else None)"
    by (simp add: in_day_def)
  from policy_am_hours H
  have "policy_parse_time_to_hour (''after '' @ show_int H @ ''am'')
          = (if H = 12 then Some 0 else in_day H)"
    unfolding list_all_iff by blast
  with r show "policy_parse_time_to_hour (''after '' @ show_int H @ ''am'')
        = (if H = 12 then Some 0 else Some H)"
    by (simp add: in_day_def)
next
  fix h show "to_24h h ''pm'' = (if h = 12 then 12 else h + 12)" by (rule to_24h_pm)
next
  fix h show "to_24h h ''am'' = (if h = 12 then 0 else h)" by (rule to_24h_am)
next
  fix t m h
  assume "rsearch rx_policy_ampm (norm_str t) = Some m
          \<and> in_day (to_24h (int_of_digits (match_group m 1)) (match_group m 2)) = Some h"
  then show "policy_parse_time_to_hour t = Some h" using policy_meridiem_first by blast
next
  fix t h assume "policy_parse_time_to_hour t = Some h"
  then show "0 \<le> h" "h \<le> 23" using policy_hour_range by blast+
qed

theorem policy_hour_conversion_witness:
  "policy_parse_time_to_hour (''after '' @ show_int 9 @ ''pm'') = Some 21
   \<and> policy_parse_time_to_hour (''after '' @ show_int 12 @ ''pm'') = Some 12
   \<and> policy_parse_time_to_hour (''after '' @ show_int 12 @ ''am'') = Some 0
   \<and> policy_parse_time_to_hour (''after '' @ show_int 13 @ ''pm'') = None
   \<and> show_int 9 = ''9''
   \<and> map_option (\<lambda>m. (match_group m 1, match_group m 2))
        (rsearch rx_policy_ampm (norm_str ''No calls after 20 or after 9pm'')) = Some (''9'', ''pm'')
   \<and> map_option (\<lambda>m. match_group m 1)
        (rsearch rx_policy_24 (norm_str ''No calls after 20 or after 9pm'')) = Some ''20''
   \<and> policy_parse_time_to_hour ''No calls after 20 or after 9pm'' = Some 21
   \<and> (0::int) \<le> 21 \<and> (21::int) \<le> 23"
proof -
  have g: "map_option (\<lambda>m. (match_group m 1, match_group m 2))
        (rsearch rx_policy_ampm (norm_str ''No calls after 20 or after 9pm'')) = Some (''9'', ''pm'')"
    by code_simp
  have g2: "map_option (\<lambda>m. match_group m 1)
        (rsearch rx_policy_24 (norm_str ''No calls after 20 or after 9pm'')) = Some ''20''"
    by code_simp
  from g obtain m where m: "rsearch rx_policy_ampm (norm_str ''No calls after 20 or after 9pm'') = Some m"
    and m1: "match_group m 1 = ''9''" and m2: "match_group m 2 = ''pm''" by auto
  have d: "in_day (to_24h (int_of_digits (match_group m 1)) (match_group m 2)) = Some 21"
    unfolding m1 m2 by code_simp
  have s: "show_int 9 = ''9''" by code_simp
  note t = policy_hour_conversion
  from t m d have p: "policy_parse_time_to_hour ''No calls after 20 or after 9pm'' = Some 21"
    by blast
  from t p have r: "(0::int) \<le> 21 \<and> (21::int) \<le> 23" by blast
  from t have a: "policy_parse_time_to_hour (''after '' @ show_int 9 @ ''pm'') = Some 21"
    and b: "policy_parse_time_to_hour (''after '' @ show_int 12 @ ''pm'') = Some 12"
    and c: "policy_parse_time_to_hour (''after '' @ show_int 12 @ ''am'') = Some 0"
    and e: "policy_parse_time_to_hour (''after '' @ show_int 13 @ ''pm'') = None"
    by simp_all
  from a b c e s g g2 p r show ?thesis by blast
qed

section \<open>The hour extractor of the evaluator\<close>

text \<open>
  C5. The second pattern of the evaluator's hour extractor requires the minutes: on a
  request whose only time mention is the bare hour \<open>21\<close> it returns nothing, while
  \<open>21:00\<close> gives 21, and the extractor of the constraint parser, whose pattern has the
  minutes optional, reads the bare \<open>21\<close> after \<open>after\<close>.
\<close>

theorem bare_hour_not_extracted:
  "orchestrator_parse_time_to_hour ''schedule a call at 21'' = None
   \<and> orchestrator_parse_time_to_hour ''schedule a call at 21:00'' = Some 21
   \<and> policy_parse_time_to_hour ''no calls after 21'' = Some 21"
  by code_simp

section \<open>The constraint parser\<close>

lemma round_pos_not_nan: "round_pos q \<noteq> NaN"
  by (simp add: round_pos_def Let_def)

lemma to_double_not_nan: "to_double q \<noteq> NaN"
proof -
  have "fneg (round_pos (- q)) \<noteq> NaN"
    using round_pos_not_nan[of "- q"] by (cases "round_pos (- q)") simp_all
  then show ?thesis by (simp add: to_double_def round_pos_not_nan)
qed

lemma parse_money_amount_not_nan: "parse_money_amount t = Some a \<Longrightarrow> a \<noteq> NaN"
  by (auto simp: parse_money_amount_def amount_of_match_def float_of_decimal_def Let_def
        to_double_not_nan split: option.splits)

lemma meeting_family_occurs:
  "meeting_family n \<longleftrightarrow> ((sublist ''meeting'' n \<or> sublist ''call'' n) \<and> sublist ''after'' n)"
  by (simp only: meeting_family_def py_in_sublist)

lemma budget_family_occurs:
  "budget_family n \<longleftrightarrow>
     ((sublist ''budget'' n \<and> sublist ''cap'' n) \<or> (sublist ''max'' n \<and> sublist ''budget'' n)
      \<or> sublist ''budget cap'' n \<or> (sublist ''spend'' n \<and> sublist ''max'' n))"
  by (simp only: budget_family_def py_in_sublist)

lemma sharing_family_occurs:
  "sharing_family n \<longleftrightarrow>
     ((\<exists>k\<in>set [''share'', ''send'', ''export'', ''give'', ''forward'']. sublist k n)
      \<and> (\<exists>k\<in>set [''dataset'', ''data'', ''file'', ''files'']. sublist k n)
      \<and> (\<exists>k\<in>set [''contractor'', ''external'', ''third party'', ''3rd party'', ''vendor'']. sublist k n))"
  by (simp only: sharing_family_def any_in_sublist)

lemma parse_constraint_cases:
  "parse_constraint uid t =
     (if meeting_family (norm_str (strip t)) then
        (case policy_parse_time_to_hour (norm_str (strip t)) of
           None \<Rightarrow> (None, Some err_time)
         | Some hour \<Rightarrow>
             (Some \<lparr>pc_id = ''c-'' @ take 8 uid, pc_type = ''NO_MEETINGS_AFTER_HOUR'',
                    pc_severity = ''HARD'', pc_text = strip t, pc_params = [(''hour'', VInt hour)]\<rparr>, None))
      else if budget_family (norm_str (strip t)) then
        (case parse_money_amount (norm_str (strip t)) of
           None \<Rightarrow> (None, Some err_amount)
         | Some amt \<Rightarrow>
             (Some \<lparr>pc_id = ''c-'' @ take 8 uid, pc_type = ''BUDGET_CAP'',
                    pc_severity = ''HARD'', pc_text = strip t,
                    pc_params = [(''max_amount'', VFloat amt)]\<rparr>, None))
      else if sharing_family (norm_str (strip t)) then
        (Some \<lparr>pc_id = ''c-'' @ take 8 uid, pc_type = ''NO_SHARING_WITH_EXTERNALS'',
               pc_severity = ''HARD'', pc_text = strip t,
               pc_params = [(''banned_party'',
                   VStr (if py_in ''contractor'' (norm_str (strip t)) then ''contractor'' else ''external''))]\<rparr>,
         None)
      else (None, Some err_unrecognized))"
  by (simp add: parse_constraint_def Let_def NO_MEETINGS_AFTER_HOUR_def BUDGET_CAP_def
        NO_SHARING_WITH_EXTERNALS_def HARD_def split: option.split)

lemma parse_constraint_one:
  "(\<exists>c. parse_constraint uid t = (Some c, None)) \<or> (\<exists>e. parse_constraint uid t = (None, Some e))"
  unfolding parse_constraint_cases by (simp split: option.split)

lemma parse_constraint_shape:
  assumes "fst (parse_constraint uid t) = Some c"
  shows "pc_id c = ''c-'' @ take 8 uid \<and> pc_severity c = ''HARD'' \<and> pc_text c = strip t
         \<and> ((pc_type c = ''NO_MEETINGS_AFTER_HOUR''
                \<and> (\<exists>h. pc_params c = [(''hour'', VInt h)] \<and> 0 \<le> h \<and> h \<le> 23))
              \<or> (pc_type c = ''BUDGET_CAP''
                \<and> (\<exists>a. pc_params c = [(''max_amount'', VFloat a)] \<and> a \<noteq> NaN))
              \<or> (pc_type c = ''NO_SHARING_WITH_EXTERNALS''
                \<and> (pc_params c = [(''banned_party'', VStr ''contractor'')]
                     \<or> pc_params c = [(''banned_party'', VStr ''external'')])))"
proof (cases "meeting_family (norm_str (strip t))")
  case True
  with assms obtain h where h: "policy_parse_time_to_hour (norm_str (strip t)) = Some h"
    and c: "c = \<lparr>pc_id = ''c-'' @ take 8 uid, pc_type = ''NO_MEETINGS_AFTER_HOUR'',
                    pc_severity = ''HARD'', pc_text = strip t, pc_params = [(''hour'', VInt h)]\<rparr>"
    unfolding parse_constraint_cases by (auto split: option.splits)
  from policy_hour_range[OF h] c show ?thesis by simp
next
  case nm: False
  show ?thesis
  proof (cases "budget_family (norm_str (strip t))")
    case True
    with nm assms obtain a where a: "parse_money_amount (norm_str (strip t)) = Some a"
      and c: "c = \<lparr>pc_id = ''c-'' @ take 8 uid, pc_type = ''BUDGET_CAP'',
                    pc_severity = ''HARD'', pc_text = strip t,
                    pc_params = [(''max_amount'', VFloat a)]\<rparr>"
      unfolding parse_constraint_cases by (auto split: option.splits)
    from parse_money_amount_not_nan[OF a] c show ?thesis by simp
  next
    case nb: False
    show ?thesis
    proof (cases "sharing_family (norm_str (strip t))")
      case True
      with nm nb assms have "c = \<lparr>pc_id = ''c-'' @ take 8 uid, pc_type = ''NO_SHARING_WITH_EXTERNALS'',
               pc_severity = ''HARD'', pc_text = strip t,
               pc_params = [(''banned_party'',
                   VStr (if py_in ''contractor'' (norm_str (strip t)) then ''contractor'' else ''external''))]\<rparr>"
        unfolding parse_constraint_cases by simp
      then show ?thesis by simp
    next
      case False
      with nm nb assms show ?thesis unfolding parse_constraint_cases by simp
    qed
  qed
qed

lemma parse_constraint_unrecognized:
  assumes "\<not> meeting_family (norm_str (strip t))" "\<not> budget_family (norm_str (strip t))"
    "\<not> sharing_family (norm_str (strip t))"
  shows "parse_constraint uid t = (None, Some err_unrecognized)"
  unfolding parse_constraint_cases using assms by simp

lemma err_unrecognized_lists:
  "prefix ''Unrecognized constraint'' err_unrecognized
   \<and> sublist ''1) No meetings after 9pm'' err_unrecognized
   \<and> sublist ''2) Budget cap $1000'' err_unrecognized
   \<and> sublist ''3) Never share datasets with external contractors'' err_unrecognized"
  by code_simp

lemma f1000: "float_of_decimal ''1000'' = Fin 1000"
  by (simp add: float_eval)

lemma g1000:
  "map_option (\<lambda>m. match_group m 1)
     (rsearch rx_dollar (norm_str (norm_str (strip ''Budget cap $1000'')))) = Some ''1000''"
  by code_simp

lemma pm1000: "parse_money_amount (norm_str (strip ''Budget cap $1000'')) = Some (Fin 1000)"
proof -
  from g1000 obtain m
    where m: "rsearch rx_dollar (norm_str (norm_str (strip ''Budget cap $1000''))) = Some m"
    and g: "match_group m 1 = ''1000''" by auto
  have "parse_money_amount (norm_str (strip ''Budget cap $1000'')) = Some (float_of_decimal ''1000'')"
    using g by (simp add: parse_money_amount_def amount_of_match_def m)
  with f1000 show ?thesis by simp
qed

lemma budget_cap_example:
  "parse_constraint ''0123456789abcdef'' ''Budget cap $1000'' =
     (Some \<lparr>pc_id = ''c-01234567'', pc_type = ''BUDGET_CAP'', pc_severity = ''HARD'',
          pc_text = ''Budget cap $1000'', pc_params = [(''max_amount'', VFloat (Fin 1000))]\<rparr>, None)"
proof -
  have fam: "\<not> meeting_family (norm_str (strip ''Budget cap $1000''))
             \<and> budget_family (norm_str (strip ''Budget cap $1000''))"
    by code_simp
  have s: "strip ''Budget cap $1000'' = ''Budget cap $1000''" by code_simp
  have "parse_constraint ''0123456789abcdef'' ''Budget cap $1000'' =
     (Some \<lparr>pc_id = ''c-'' @ take 8 ''0123456789abcdef'', pc_type = ''BUDGET_CAP'',
            pc_severity = ''HARD'', pc_text = strip ''Budget cap $1000'',
            pc_params = [(''max_amount'', VFloat (Fin 1000))]\<rparr>, None)"
    unfolding parse_constraint_cases using fam pm1000 by simp
  then show ?thesis unfolding s by simp
qed

text \<open>
  C4. \<open>parse_constraint\<close> returns either a constraint without an error message or an
  error message without a constraint. A constraint it returns carries the id made from
  the first eight characters of the uuid, the severity \<open>HARD\<close> and the stripped text,
  and has one of three shapes: type \<open>NO_MEETINGS_AFTER_HOUR\<close> with the single parameter
  \<open>hour\<close>, an integer from 0 to 23; type \<open>BUDGET_CAP\<close> with the single parameter
  \<open>max_amount\<close>, a float that is not a NaN; type \<open>NO_SHARING_WITH_EXTERNALS\<close> with the
  single parameter \<open>banned_party\<close>, the string \<open>contractor\<close> or \<open>external\<close>. A text
  whose normalized form holds the keywords of none of the three families gets the
  message for an unrecognized constraint, which lists the three example phrasings.
\<close>

theorem parse_constraint_result:
  "((\<exists>c. parse_constraint uid t = (Some c, None)) \<or> (\<exists>e. parse_constraint uid t = (None, Some e)))
   \<and> (\<forall>c. fst (parse_constraint uid t) = Some c \<longrightarrow>
          pc_id c = ''c-'' @ take 8 uid \<and> pc_severity c = ''HARD'' \<and> pc_text c = strip t
          \<and> ((pc_type c = ''NO_MEETINGS_AFTER_HOUR''
                 \<and> (\<exists>h. pc_params c = [(''hour'', VInt h)] \<and> 0 \<le> h \<and> h \<le> 23))
               \<or> (pc_type c = ''BUDGET_CAP''
                 \<and> (\<exists>a. pc_params c = [(''max_amount'', VFloat a)] \<and> a \<noteq> NaN))
               \<or> (pc_type c = ''NO_SHARING_WITH_EXTERNALS''
                 \<and> (pc_params c = [(''banned_party'', VStr ''contractor'')]
                      \<or> pc_params c = [(''banned_party'', VStr ''external'')]))))
   \<and> (\<not> ((sublist ''meeting'' (norm_str (strip t)) \<or> sublist ''call'' (norm_str (strip t))) \<and> sublist ''after'' (norm_str (strip t)))
      \<and> \<not> ((sublist ''budget'' (norm_str (strip t)) \<and> sublist ''cap'' (norm_str (strip t))) \<or> (sublist ''max'' (norm_str (strip t)) \<and> sublist ''budget'' (norm_str (strip t)))
          \<or> sublist ''budget cap'' (norm_str (strip t)) \<or> (sublist ''spend'' (norm_str (strip t)) \<and> sublist ''max'' (norm_str (strip t))))
      \<and> \<not> ((\<exists>k\<in>set [''share'', ''send'', ''export'', ''give'', ''forward'']. sublist k (norm_str (strip t)))
          \<and> (\<exists>k\<in>set [''dataset'', ''data'', ''file'', ''files'']. sublist k (norm_str (strip t)))
          \<and> (\<exists>k\<in>set [''contractor'', ''external'', ''third party'', ''3rd party'', ''vendor'']. sublist k (norm_str (strip t))))
      \<longrightarrow> parse_constraint uid t = (None, Some err_unrecognized))
   \<and> prefix ''Unrecognized constraint'' err_unrecognized
   \<and> sublist ''1) No meetings after 9pm'' err_unrecognized
   \<and> sublist ''2) Budget cap $1000'' err_unrecognized
   \<and> sublist ''3) Never share datasets with external contractors'' err_unrecognized"
proof -
  have A: "((\<exists>c. parse_constraint uid t = (Some c, None)) \<or> (\<exists>e. parse_constraint uid t = (None, Some e)))"
    by (rule parse_constraint_one)
  have B: "(\<forall>c. fst (parse_constraint uid t) = Some c \<longrightarrow>
          pc_id c = ''c-'' @ take 8 uid \<and> pc_severity c = ''HARD'' \<and> pc_text c = strip t
          \<and> ((pc_type c = ''NO_MEETINGS_AFTER_HOUR''
                 \<and> (\<exists>h. pc_params c = [(''hour'', VInt h)] \<and> 0 \<le> h \<and> h \<le> 23))
               \<or> (pc_type c = ''BUDGET_CAP''
                 \<and> (\<exists>a. pc_params c = [(''max_amount'', VFloat a)] \<and> a \<noteq> NaN))
               \<or> (pc_type c = ''NO_SHARING_WITH_EXTERNALS''
                 \<and> (pc_params c = [(''banned_party'', VStr ''contractor'')]
                      \<or> pc_params c = [(''banned_party'', VStr ''external'')]))))"
    by (intro allI impI) (rule parse_constraint_shape)
  have C: "(\<not> ((sublist ''meeting'' (norm_str (strip t)) \<or> sublist ''call'' (norm_str (strip t))) \<and> sublist ''after'' (norm_str (strip t)))
      \<and> \<not> ((sublist ''budget'' (norm_str (strip t)) \<and> sublist ''cap'' (norm_str (strip t))) \<or> (sublist ''max'' (norm_str (strip t)) \<and> sublist ''budget'' (norm_str (strip t)))
          \<or> sublist ''budget cap'' (norm_str (strip t)) \<or> (sublist ''spend'' (norm_str (strip t)) \<and> sublist ''max'' (norm_str (strip t))))
      \<and> \<not> ((\<exists>k\<in>set [''share'', ''send'', ''export'', ''give'', ''forward'']. sublist k (norm_str (strip t)))
          \<and> (\<exists>k\<in>set [''dataset'', ''data'', ''file'', ''files'']. sublist k (norm_str (strip t)))
          \<and> (\<exists>k\<in>set [''contractor'', ''external'', ''third party'', ''3rd party'', ''vendor'']. sublist k (norm_str (strip t))))
      \<longrightarrow> parse_constraint uid t = (None, Some err_unrecognized))"
    unfolding meeting_family_occurs[symmetric] budget_family_occurs[symmetric]
      sharing_family_occurs[symmetric]
    using parse_constraint_unrecognized by blast
  have D: "prefix ''Unrecognized constraint'' err_unrecognized
   \<and> sublist ''1) No meetings after 9pm'' err_unrecognized
   \<and> sublist ''2) Budget cap $1000'' err_unrecognized
   \<and> sublist ''3) Never share datasets with external contractors'' err_unrecognized"
    by (rule err_unrecognized_lists)
  show ?thesis by (rule conjI[OF A conjI[OF B conjI[OF C D]]])
qed

theorem parse_constraint_result_witness:
  "(\<exists>c. parse_constraint ''0123456789abcdef'' ''  No Meetings after 9pm '' = (Some c, None)
          \<and> c = \<lparr>pc_id = ''c-01234567'', pc_type = ''NO_MEETINGS_AFTER_HOUR'', pc_severity = ''HARD'',
                pc_text = ''No Meetings after 9pm'', pc_params = [(''hour'', VInt 21)]\<rparr>
          \<and> pc_id c = ''c-'' @ take 8 ''0123456789abcdef'' \<and> pc_severity c = ''HARD'' \<and> pc_text c = strip ''  No Meetings after 9pm ''
          \<and> ((pc_type c = ''NO_MEETINGS_AFTER_HOUR''
                 \<and> (\<exists>h. pc_params c = [(''hour'', VInt h)] \<and> 0 \<le> h \<and> h \<le> 23))
               \<or> (pc_type c = ''BUDGET_CAP''
                 \<and> (\<exists>a. pc_params c = [(''max_amount'', VFloat a)] \<and> a \<noteq> NaN))
               \<or> (pc_type c = ''NO_SHARING_WITH_EXTERNALS''
                 \<and> (pc_params c = [(''banned_party'', VStr ''contractor'')]
                      \<or> pc_params c = [(''banned_party'', VStr ''external'')]))))
   \<and> (\<exists>c. parse_constraint ''0123456789abcdef'' ''Budget cap $1000'' = (Some c, None)
          \<and> c = \<lparr>pc_id = ''c-01234567'', pc_type = ''BUDGET_CAP'', pc_severity = ''HARD'',
                pc_text = ''Budget cap $1000'', pc_params = [(''max_amount'', VFloat (Fin 1000))]\<rparr>
          \<and> pc_id c = ''c-'' @ take 8 ''0123456789abcdef'' \<and> pc_severity c = ''HARD'' \<and> pc_text c = strip ''Budget cap $1000''
          \<and> ((pc_type c = ''NO_MEETINGS_AFTER_HOUR''
                 \<and> (\<exists>h. pc_params c = [(''hour'', VInt h)] \<and> 0 \<le> h \<and> h \<le> 23))
               \<or> (pc_type c = ''BUDGET_CAP''
                 \<and> (\<exists>a. pc_params c = [(''max_amount'', VFloat a)] \<and> a \<noteq> NaN))
               \<or> (pc_type c = ''NO_SHARING_WITH_EXTERNALS''
                 \<and> (pc_params c = [(''banned_party'', VStr ''contractor'')]
                      \<or> pc_params c = [(''banned_party'', VStr ''external'')]))))
   \<and> (\<exists>c. parse_constraint ''0123456789abcdef'' ''Never share datasets with external contractors'' = (Some c, None)
          \<and> c = \<lparr>pc_id = ''c-01234567'', pc_type = ''NO_SHARING_WITH_EXTERNALS'', pc_severity = ''HARD'',
                pc_text = ''Never share datasets with external contractors'', pc_params = [(''banned_party'', VStr ''contractor'')]\<rparr>
          \<and> pc_id c = ''c-'' @ take 8 ''0123456789abcdef'' \<and> pc_severity c = ''HARD'' \<and> pc_text c = strip ''Never share datasets with external contractors''
          \<and> ((pc_type c = ''NO_MEETINGS_AFTER_HOUR''
                 \<and> (\<exists>h. pc_params c = [(''hour'', VInt h)] \<and> 0 \<le> h \<and> h \<le> 23))
               \<or> (pc_type c = ''BUDGET_CAP''
                 \<and> (\<exists>a. pc_params c = [(''max_amount'', VFloat a)] \<and> a \<noteq> NaN))
               \<or> (pc_type c = ''NO_SHARING_WITH_EXTERNALS''
                 \<and> (pc_params c = [(''banned_party'', VStr ''contractor'')]
                      \<or> pc_params c = [(''banned_party'', VStr ''external'')]))))
   \<and> (\<exists>c. parse_constraint ''0123456789abcdef'' ''do not send files to the vendor'' = (Some c, None)
          \<and> c = \<lparr>pc_id = ''c-01234567'', pc_type = ''NO_SHARING_WITH_EXTERNALS'', pc_severity = ''HARD'',
                pc_text = ''do not send files to the vendor'', pc_params = [(''banned_party'', VStr ''external'')]\<rparr>
          \<and> pc_id c = ''c-'' @ take 8 ''0123456789abcdef'' \<and> pc_severity c = ''HARD'' \<and> pc_text c = strip ''do not send files to the vendor''
          \<and> ((pc_type c = ''NO_MEETINGS_AFTER_HOUR''
                 \<and> (\<exists>h. pc_params c = [(''hour'', VInt h)] \<and> 0 \<le> h \<and> h \<le> 23))
               \<or> (pc_type c = ''BUDGET_CAP''
                 \<and> (\<exists>a. pc_params c = [(''max_amount'', VFloat a)] \<and> a \<noteq> NaN))
               \<or> (pc_type c = ''NO_SHARING_WITH_EXTERNALS''
                 \<and> (pc_params c = [(''banned_party'', VStr ''contractor'')]
                      \<or> pc_params c = [(''banned_party'', VStr ''external'')]))))
   \<and> (\<not> ((sublist ''meeting'' (norm_str (strip ''please be nice'')) \<or> sublist ''call'' (norm_str (strip ''please be nice''))) \<and> sublist ''after'' (norm_str (strip ''please be nice'')))
      \<and> \<not> ((sublist ''budget'' (norm_str (strip ''please be nice'')) \<and> sublist ''cap'' (norm_str (strip ''please be nice''))) \<or> (sublist ''max'' (norm_str (strip ''please be nice'')) \<and> sublist ''budget'' (norm_str (strip ''please be nice'')))
          \<or> sublist ''budget cap'' (norm_str (strip ''please be nice'')) \<or> (sublist ''spend'' (norm_str (strip ''please be nice'')) \<and> sublist ''max'' (norm_str (strip ''please be nice''))))
      \<and> \<not> ((\<exists>k\<in>set [''share'', ''send'', ''export'', ''give'', ''forward'']. sublist k (norm_str (strip ''please be nice'')))
          \<and> (\<exists>k\<in>set [''dataset'', ''data'', ''file'', ''files'']. sublist k (norm_str (strip ''please be nice'')))
          \<and> (\<exists>k\<in>set [''contractor'', ''external'', ''third party'', ''3rd party'', ''vendor'']. sublist k (norm_str (strip ''please be nice'')))))
   \<and> parse_constraint ''0123456789abcdef'' ''please be nice'' = (None, Some err_unrecognized)
   \<and> parse_constraint ''0123456789abcdef'' ''No meetings after lunch'' = (None, Some ''Could not parse the time. Example: 'No meetings after 9pm'.'')
   \<and> parse_constraint ''0123456789abcdef'' ''budget cap unknown'' = (None, Some ''Could not parse the amount. Example: 'Budget cap $1000'.'')"
proof -
  have e1: "parse_constraint ''0123456789abcdef'' ''  No Meetings after 9pm '' =
       (Some \<lparr>pc_id = ''c-01234567'', pc_type = ''NO_MEETINGS_AFTER_HOUR'', pc_severity = ''HARD'',
                pc_text = ''No Meetings after 9pm'', pc_params = [(''hour'', VInt 21)]\<rparr>, None)"
    by code_simp
  from e1 have s1: "fst (parse_constraint ''0123456789abcdef'' ''  No Meetings after 9pm '') = Some \<lparr>pc_id = ''c-01234567'', pc_type = ''NO_MEETINGS_AFTER_HOUR'', pc_severity = ''HARD'',
                pc_text = ''No Meetings after 9pm'', pc_params = [(''hour'', VInt 21)]\<rparr>" by simp
  note w1 = parse_constraint_result[of "''0123456789abcdef''" "''  No Meetings after 9pm ''", THEN conjunct2, THEN conjunct1, rule_format, OF s1]
  from e1 w1 have x1: "\<exists>c. parse_constraint ''0123456789abcdef'' ''  No Meetings after 9pm '' = (Some c, None)
          \<and> c = \<lparr>pc_id = ''c-01234567'', pc_type = ''NO_MEETINGS_AFTER_HOUR'', pc_severity = ''HARD'',
                pc_text = ''No Meetings after 9pm'', pc_params = [(''hour'', VInt 21)]\<rparr>
          \<and> pc_id c = ''c-'' @ take 8 ''0123456789abcdef'' \<and> pc_severity c = ''HARD'' \<and> pc_text c = strip ''  No Meetings after 9pm ''
          \<and> ((pc_type c = ''NO_MEETINGS_AFTER_HOUR''
                 \<and> (\<exists>h. pc_params c = [(''hour'', VInt h)] \<and> 0 \<le> h \<and> h \<le> 23))
               \<or> (pc_type c = ''BUDGET_CAP''
                 \<and> (\<exists>a. pc_params c = [(''max_amount'', VFloat a)] \<and> a \<noteq> NaN))
               \<or> (pc_type c = ''NO_SHARING_WITH_EXTERNALS''
                 \<and> (pc_params c = [(''banned_party'', VStr ''contractor'')]
                      \<or> pc_params c = [(''banned_party'', VStr ''external'')])))"
    by blast
  note e2 = budget_cap_example
  from e2 have s2: "fst (parse_constraint ''0123456789abcdef'' ''Budget cap $1000'') = Some \<lparr>pc_id = ''c-01234567'', pc_type = ''BUDGET_CAP'', pc_severity = ''HARD'',
                pc_text = ''Budget cap $1000'', pc_params = [(''max_amount'', VFloat (Fin 1000))]\<rparr>" by simp
  note w2 = parse_constraint_result[of "''0123456789abcdef''" "''Budget cap $1000''", THEN conjunct2, THEN conjunct1, rule_format, OF s2]
  from e2 w2 have x2: "\<exists>c. parse_constraint ''0123456789abcdef'' ''Budget cap $1000'' = (Some c, None)
          \<and> c = \<lparr>pc_id = ''c-01234567'', pc_type = ''BUDGET_CAP'', pc_severity = ''HARD'',
                pc_text = ''Budget cap $1000'', pc_params = [(''max_amount'', VFloat (Fin 1000))]\<rparr>
          \<and> pc_id c = ''c-'' @ take 8 ''0123456789abcdef'' \<and> pc_severity c = ''HARD'' \<and> pc_text c = strip ''Budget cap $1000''
          \<and> ((pc_type c = ''NO_MEETINGS_AFTER_HOUR''
                 \<and> (\<exists>h. pc_params c = [(''hour'', VInt h)] \<and> 0 \<le> h \<and> h \<le> 23))
               \<or> (pc_type c = ''BUDGET_CAP''
                 \<and> (\<exists>a. pc_params c = [(''max_amount'', VFloat a)] \<and> a \<noteq> NaN))
               \<or> (pc_type c = ''NO_SHARING_WITH_EXTERNALS''
                 \<and> (pc_params c = [(''banned_party'', VStr ''contractor'')]
                      \<or> pc_params c = [(''banned_party'', VStr ''external'')])))"
    by blast
  have e3: "parse_constraint ''0123456789abcdef'' ''Never share datasets with external contractors'' =
       (Some \<lparr>pc_id = ''c-01234567'', pc_type = ''NO_SHARING_WITH_EXTERNALS'', pc_severity = ''HARD'',
                pc_text = ''Never share datasets with external contractors'', pc_params = [(''banned_party'', VStr ''contractor'')]\<rparr>, None)"
    by code_simp
  from e3 have s3: "fst (parse_constraint ''0123456789abcdef'' ''Never share datasets with external contractors'') = Some \<lparr>pc_id = ''c-01234567'', pc_type = ''NO_SHARING_WITH_EXTERNALS'', pc_severity = ''HARD'',
                pc_text = ''Never share datasets with external contractors'', pc_params = [(''banned_party'', VStr ''contractor'')]\<rparr>" by simp
  note w3 = parse_constraint_result[of "''0123456789abcdef''" "''Never share datasets with external contractors''", THEN conjunct2, THEN conjunct1, rule_format, OF s3]
  from e3 w3 have x3: "\<exists>c. parse_constraint ''0123456789abcdef'' ''Never share datasets with external contractors'' = (Some c, None)
          \<and> c = \<lparr>pc_id = ''c-01234567'', pc_type = ''NO_SHARING_WITH_EXTERNALS'', pc_severity = ''HARD'',
                pc_text = ''Never share datasets with external contractors'', pc_params = [(''banned_party'', VStr ''contractor'')]\<rparr>
          \<and> pc_id c = ''c-'' @ take 8 ''0123456789abcdef'' \<and> pc_severity c = ''HARD'' \<and> pc_text c = strip ''Never share datasets with external contractors''
          \<and> ((pc_type c = ''NO_MEETINGS_AFTER_HOUR''
                 \<and> (\<exists>h. pc_params c = [(''hour'', VInt h)] \<and> 0 \<le> h \<and> h \<le> 23))
               \<or> (pc_type c = ''BUDGET_CAP''
                 \<and> (\<exists>a. pc_params c = [(''max_amount'', VFloat a)] \<and> a \<noteq> NaN))
               \<or> (pc_type c = ''NO_SHARING_WITH_EXTERNALS''
                 \<and> (pc_params c = [(''banned_party'', VStr ''contractor'')]
                      \<or> pc_params c = [(''banned_party'', VStr ''external'')])))"
    by blast
  have e4: "parse_constraint ''0123456789abcdef'' ''do not send files to the vendor'' =
       (Some \<lparr>pc_id = ''c-01234567'', pc_type = ''NO_SHARING_WITH_EXTERNALS'', pc_severity = ''HARD'',
                pc_text = ''do not send files to the vendor'', pc_params = [(''banned_party'', VStr ''external'')]\<rparr>, None)"
    by code_simp
  from e4 have s4: "fst (parse_constraint ''0123456789abcdef'' ''do not send files to the vendor'') = Some \<lparr>pc_id = ''c-01234567'', pc_type = ''NO_SHARING_WITH_EXTERNALS'', pc_severity = ''HARD'',
                pc_text = ''do not send files to the vendor'', pc_params = [(''banned_party'', VStr ''external'')]\<rparr>" by simp
  note w4 = parse_constraint_result[of "''0123456789abcdef''" "''do not send files to the vendor''", THEN conjunct2, THEN conjunct1, rule_format, OF s4]
  from e4 w4 have x4: "\<exists>c. parse_constraint ''0123456789abcdef'' ''do not send files to the vendor'' = (Some c, None)
          \<and> c = \<lparr>pc_id = ''c-01234567'', pc_type = ''NO_SHARING_WITH_EXTERNALS'', pc_severity = ''HARD'',
                pc_text = ''do not send files to the vendor'', pc_params = [(''banned_party'', VStr ''external'')]\<rparr>
          \<and> pc_id c = ''c-'' @ take 8 ''0123456789abcdef'' \<and> pc_severity c = ''HARD'' \<and> pc_text c = strip ''do not send files to the vendor''
          \<and> ((pc_type c = ''NO_MEETINGS_AFTER_HOUR''
                 \<and> (\<exists>h. pc_params c = [(''hour'', VInt h)] \<and> 0 \<le> h \<and> h \<le> 23))
               \<or> (pc_type c = ''BUDGET_CAP''
                 \<and> (\<exists>a. pc_params c = [(''max_amount'', VFloat a)] \<and> a \<noteq> NaN))
               \<or> (pc_type c = ''NO_SHARING_WITH_EXTERNALS''
                 \<and> (pc_params c = [(''banned_party'', VStr ''contractor'')]
                      \<or> pc_params c = [(''banned_party'', VStr ''external'')])))"
    by blast
  have n4: "\<not> ((sublist ''meeting'' (norm_str (strip ''please be nice'')) \<or> sublist ''call'' (norm_str (strip ''please be nice''))) \<and> sublist ''after'' (norm_str (strip ''please be nice'')))
      \<and> \<not> ((sublist ''budget'' (norm_str (strip ''please be nice'')) \<and> sublist ''cap'' (norm_str (strip ''please be nice''))) \<or> (sublist ''max'' (norm_str (strip ''please be nice'')) \<and> sublist ''budget'' (norm_str (strip ''please be nice'')))
          \<or> sublist ''budget cap'' (norm_str (strip ''please be nice'')) \<or> (sublist ''spend'' (norm_str (strip ''please be nice'')) \<and> sublist ''max'' (norm_str (strip ''please be nice''))))
      \<and> \<not> ((\<exists>k\<in>set [''share'', ''send'', ''export'', ''give'', ''forward'']. sublist k (norm_str (strip ''please be nice'')))
          \<and> (\<exists>k\<in>set [''dataset'', ''data'', ''file'', ''files'']. sublist k (norm_str (strip ''please be nice'')))
          \<and> (\<exists>k\<in>set [''contractor'', ''external'', ''third party'', ''3rd party'', ''vendor'']. sublist k (norm_str (strip ''please be nice''))))"
    by code_simp
  from parse_constraint_result[of "''0123456789abcdef''" "''please be nice''"] n4
  have u4: "parse_constraint ''0123456789abcdef'' ''please be nice'' = (None, Some err_unrecognized)"
    by blast
  have e5: "parse_constraint ''0123456789abcdef'' ''No meetings after lunch'' = (None, Some ''Could not parse the time. Example: 'No meetings after 9pm'.'')"
    by code_simp
  have e6: "parse_constraint ''0123456789abcdef'' ''budget cap unknown'' = (None, Some ''Could not parse the amount. Example: 'Budget cap $1000'.'')"
    by code_simp
  from x1 x2 x3 x4 n4 u4 e5 e6 show ?thesis by blast
qed

end
